theory Spec2Isabelle
  imports Complex_Main
begin

section \<open>The terms of \<pi> Lib\<close>

text \<open>
  The classes of \<^verbatim>\<open>pi.py\<close> that derive from \<^verbatim>\<open>Statement\<close> are the constructors of three
  datatypes, one for each syntactic category (\<^verbatim>\<open>Exp\<close>, \<^verbatim>\<open>Dec\<close>, \<^verbatim>\<open>Cmd\<close>). The operand tuple
  \<^verbatim>\<open>opr\<close> of a node is the argument list of its constructor. \<^verbatim>\<open>Sum\<close>, \<^verbatim>\<open>Not\<close> and \<^verbatim>\<open>Id\<close>
  carry the suffix \<open>_e\<close> because HOL has constants of these names.

  An operand that the constructor asserts to be an \<^verbatim>\<open>Id\<close> (the first operand of \<^verbatim>\<open>Assign\<close>
  and of \<^verbatim>\<open>Bind\<close>) is represented by the name the \<^verbatim>\<open>Id\<close> holds. The first operand of
  \<^verbatim>\<open>Loop\<close>, asserted to be a \<^verbatim>\<open>BoolExp\<close>, is an expression; \<open>isBoolExp\<close> is that assertion.

  A Python \<^verbatim>\<open>float\<close> is modelled by a real number: the finite floats with exact arithmetic.
  Rounding, overflow to infinity and NaN are not part of the model.
\<close>

datatype exp =
    Num real
  | Sum_e exp exp
  | Sub exp exp
  | Mul exp exp
  | Eq exp exp
  | Not_e exp
  | Id_e string
  | Ref exp
  | Cns exp

datatype dec =
    Bind string exp
  | DSeq dec dec

datatype cmd =
    Assign string exp
  | Loop exp cmd
  | CSeq cmd cmd
  | Blk dec cmd

fun isBoolExp :: "exp \<Rightarrow> bool" where
  "isBoolExp (Eq e1 e2) = True"
| "isBoolExp (Not_e e) = True"
| "isBoolExp e = False"

section \<open>Values, control entries and errors\<close>

text \<open>
  The numbers a run computes are Python floats, and the booleans and integers that \<^verbatim>\<open>==\<close>,
  \<^verbatim>\<open>not\<close> and arithmetic on booleans produce. Python's arithmetic converts a boolean to
  the integer 0 or 1 and an integer to a float when the other operand is a float; its
  comparison \<^verbatim>\<open>==\<close> and its truth test compare the numeric values.
\<close>

datatype num = F real | I int | B bool

fun real_of_num :: "num \<Rightarrow> real" where
  "real_of_num (F x) = x"
| "real_of_num (I i) = of_int i"
| "real_of_num (B b) = (if b then 1 else 0)"

fun int_of_num :: "num \<Rightarrow> int" where
  "int_of_num (I i) = i"
| "int_of_num (B b) = (if b then 1 else 0)"
| "int_of_num (F x) = \<lfloor>x\<rfloor>"

fun is_float :: "num \<Rightarrow> bool" where
  "is_float (F x) = True"
| "is_float n = False"

definition py_add :: "num \<Rightarrow> num \<Rightarrow> num" where
  "py_add a b =
     (if is_float a \<or> is_float b then F (real_of_num a + real_of_num b)
      else I (int_of_num a + int_of_num b))"

definition py_sub :: "num \<Rightarrow> num \<Rightarrow> num" where
  "py_sub a b =
     (if is_float a \<or> is_float b then F (real_of_num a - real_of_num b)
      else I (int_of_num a - int_of_num b))"

definition py_mul :: "num \<Rightarrow> num \<Rightarrow> num" where
  "py_mul a b =
     (if is_float a \<or> is_float b then F (real_of_num a * real_of_num b)
      else I (int_of_num a * int_of_num b))"

definition py_eq :: "num \<Rightarrow> num \<Rightarrow> bool" where
  "py_eq a b = (real_of_num a = real_of_num b)"

definition truthy :: "num \<Rightarrow> bool" where
  "truthy a = (real_of_num a \<noteq> 0)"

text \<open>
  The markers are the string constants of the classes \<^verbatim>\<open>ExpKW\<close>, \<^verbatim>\<open>CmdKW\<close>, \<^verbatim>\<open>DecExpKW\<close>,
  \<^verbatim>\<open>DecCmdKW\<close> and \<^verbatim>\<open>DecKW\<close>. An entry of the control stack is a term or a marker.
\<close>

datatype kw =
    ExpKW_SUM | ExpKW_SUB | ExpKW_MUL | ExpKW_EQ | ExpKW_NOT
  | CmdKW_ASSIGN | CmdKW_LOOP
  | DecExpKW_REF | DecExpKW_CNS
  | DecCmdKW_BLKDEC | DecCmdKW_BLKCMD
  | DecKW_BIND | DecKW_DSEQ

datatype ctl = CExp exp | CCmd cmd | CDec dec | CKW kw

text \<open>
  An entry of the value stack is a number, the name pushed by \<^verbatim>\<open>Assign\<close>, a saved term
  (the \<^verbatim>\<open>Id\<close> pushed by \<^verbatim>\<open>Bind\<close>, the body and the \<^verbatim>\<open>Loop\<close> pushed by \<^verbatim>\<open>Loop\<close>, the body
  pushed by \<^verbatim>\<open>Blk\<close>), a reference to a list object (a location ledger) or a dictionary
  from names to locations (an environment or the bindings of a declaration).
  A dictionary is an association list in insertion order, as Python keeps it.
\<close>

datatype val =
    VNum num
  | VStr string
  | VExp exp
  | VCmd cmd
  | VList nat
  | VDict "(string \<times> num) list"

text \<open>
  \<open>IllFormed\<close> is \<^verbatim>\<open>Exception("Ill formed:", e)\<close>. \<open>IndexError\<close> is raised by
  \<^verbatim>\<open>vs[len(vs) - 1]\<close> on an empty stack, \<open>KeyError\<close> by a dictionary lookup and
  \<open>AssertionError\<close> by the \<^verbatim>\<open>assert\<close> of a constructor.

  Python is dynamically typed: a rule pops whatever the value stack holds. The model types
  the state, and covers the states in which a rule pops entries of the kinds it was written
  for. \<open>OutsideModel\<close> marks a pop of an entry of another kind; Python then raises
  \<^verbatim>\<open>TypeError\<close> or \<^verbatim>\<open>AttributeError\<close>, or goes on with a state that the typed record cannot
  hold. No statement below says which.
\<close>

datatype error = IllFormed ctl | IndexError | KeyError | AssertionError | OutsideModel

definition bindE :: "error + 'a \<Rightarrow> ('a \<Rightarrow> error + 'b) \<Rightarrow> error + 'b" where
  "bindE r f = (case r of Inl e \<Rightarrow> Inl e | Inr x \<Rightarrow> f x)"

section \<open>The \<pi> automaton for expressions\<close>

text \<open>
  \<^verbatim>\<open>Exp\<pi>Aut\<close> is a dictionary with the entries \<^verbatim>\<open>val\<close> and \<^verbatim>\<open>cnt\<close>. Both stacks are Python
  lists whose last element is the top; here the head of the list is the top.
\<close>

record ExpAut =
  val :: "val list"
  cnt :: "ctl list"

definition ExpAut_init :: ExpAut where
  "ExpAut_init = \<lparr>val = [], cnt = []\<rparr>"

definition pushVal :: "val \<Rightarrow> 'a ExpAut_scheme \<Rightarrow> 'a ExpAut_scheme" where
  "pushVal v s = s\<lparr>val := v # val s\<rparr>"

definition popVal :: "'a ExpAut_scheme \<Rightarrow> error + (val \<times> 'a ExpAut_scheme)" where
  "popVal s = (case val s of [] \<Rightarrow> Inl IndexError | v # vs \<Rightarrow> Inr (v, s\<lparr>val := vs\<rparr>))"

definition pushCnt :: "ctl \<Rightarrow> 'a ExpAut_scheme \<Rightarrow> 'a ExpAut_scheme" where
  "pushCnt e s = s\<lparr>cnt := e # cnt s\<rparr>"

definition popCnt :: "'a ExpAut_scheme \<Rightarrow> error + (ctl \<times> 'a ExpAut_scheme)" where
  "popCnt s = (case cnt s of [] \<Rightarrow> Inl IndexError | c # cs \<Rightarrow> Inr (c, s\<lparr>cnt := cs\<rparr>))"

definition emptyCnt :: "'a ExpAut_scheme \<Rightarrow> bool" where
  "emptyCnt s = (cnt s = [])"

text \<open>A binary rule pushes its marker, then \<open>e1\<close>, then \<open>e2\<close>: \<open>e2\<close> ends on top.\<close>

definition pushBin :: "kw \<Rightarrow> exp \<Rightarrow> exp \<Rightarrow> 'a ExpAut_scheme \<Rightarrow> 'a ExpAut_scheme" where
  "pushBin k e1 e2 s = pushCnt (CExp e2) (pushCnt (CExp e1) (pushCnt (CKW k) s))"

definition evalSum :: "exp \<Rightarrow> exp \<Rightarrow> 'a ExpAut_scheme \<Rightarrow> 'a ExpAut_scheme" where
  "evalSum e1 e2 s = pushBin ExpKW_SUM e1 e2 s"

definition evalMul :: "exp \<Rightarrow> exp \<Rightarrow> 'a ExpAut_scheme \<Rightarrow> 'a ExpAut_scheme" where
  "evalMul e1 e2 s = pushBin ExpKW_MUL e1 e2 s"

definition evalSub :: "exp \<Rightarrow> exp \<Rightarrow> 'a ExpAut_scheme \<Rightarrow> 'a ExpAut_scheme" where
  "evalSub e1 e2 s = pushBin ExpKW_SUB e1 e2 s"

definition evalEq :: "exp \<Rightarrow> exp \<Rightarrow> 'a ExpAut_scheme \<Rightarrow> 'a ExpAut_scheme" where
  "evalEq e1 e2 s = pushBin ExpKW_EQ e1 e2 s"

definition evalNot :: "exp \<Rightarrow> 'a ExpAut_scheme \<Rightarrow> 'a ExpAut_scheme" where
  "evalNot e s = pushCnt (CExp e) (pushCnt (CKW ExpKW_NOT) s)"

definition evalNum :: "real \<Rightarrow> 'a ExpAut_scheme \<Rightarrow> 'a ExpAut_scheme" where
  "evalNum f s = pushVal (VNum (F f)) s"

text \<open>
  A marker pops \<open>v1\<close> first and \<open>v2\<close> second and pushes the combination of \<open>v1\<close> and
  \<open>v2\<close>, in this order.
\<close>

definition popBin ::
  "(num \<Rightarrow> num \<Rightarrow> num) \<Rightarrow> 'a ExpAut_scheme \<Rightarrow> error + 'a ExpAut_scheme" where
  "popBin f s =
     bindE (popVal s) (\<lambda>(v1, s1).
     bindE (popVal s1) (\<lambda>(v2, s2).
       case (v1, v2) of
         (VNum a, VNum b) \<Rightarrow> Inr (pushVal (VNum (f a b)) s2)
       | _ \<Rightarrow> Inl OutsideModel))"

definition evalSumKW :: "'a ExpAut_scheme \<Rightarrow> error + 'a ExpAut_scheme" where
  "evalSumKW s = popBin py_add s"

definition evalMulKW :: "'a ExpAut_scheme \<Rightarrow> error + 'a ExpAut_scheme" where
  "evalMulKW s = popBin py_mul s"

definition evalSubKW :: "'a ExpAut_scheme \<Rightarrow> error + 'a ExpAut_scheme" where
  "evalSubKW s = popBin py_sub s"

definition evalEqKW :: "'a ExpAut_scheme \<Rightarrow> error + 'a ExpAut_scheme" where
  "evalEqKW s = popBin (\<lambda>v1 v2. B (py_eq v1 v2)) s"

definition evalNotKW :: "'a ExpAut_scheme \<Rightarrow> error + 'a ExpAut_scheme" where
  "evalNotKW s =
     bindE (popVal s) (\<lambda>(v, s1).
       case v of
         VNum a \<Rightarrow> Inr (pushVal (VNum (B (\<not> truthy a))) s1)
       | _ \<Rightarrow> Inl OutsideModel)"

text \<open>The chain of \<^verbatim>\<open>isinstance\<close> and \<^verbatim>\<open>==\<close> tests of \<^verbatim>\<open>Exp\<pi>Aut.eval\<close>, in its order.\<close>

fun ExpAut_rule :: "ctl \<Rightarrow> 'a ExpAut_scheme \<Rightarrow> error + 'a ExpAut_scheme" where
  "ExpAut_rule (CExp (Sum_e e1 e2)) s = Inr (evalSum e1 e2 s)"
| "ExpAut_rule (CKW ExpKW_SUM) s = evalSumKW s"
| "ExpAut_rule (CExp (Sub e1 e2)) s = Inr (evalSub e1 e2 s)"
| "ExpAut_rule (CKW ExpKW_SUB) s = evalSubKW s"
| "ExpAut_rule (CExp (Mul e1 e2)) s = Inr (evalMul e1 e2 s)"
| "ExpAut_rule (CKW ExpKW_MUL) s = evalMulKW s"
| "ExpAut_rule (CExp (Num f)) s = Inr (evalNum f s)"
| "ExpAut_rule (CExp (Eq e1 e2)) s = Inr (evalEq e1 e2 s)"
| "ExpAut_rule (CKW ExpKW_EQ) s = evalEqKW s"
| "ExpAut_rule (CExp (Not_e e)) s = Inr (evalNot e s)"
| "ExpAut_rule (CKW ExpKW_NOT) s = evalNotKW s"
| "ExpAut_rule e s = Inl (IllFormed e)"

definition ExpAut_eval :: "'a ExpAut_scheme \<Rightarrow> error + 'a ExpAut_scheme" where
  "ExpAut_eval s = bindE (popCnt s) (\<lambda>(e, s1). ExpAut_rule e s1)"

section \<open>The \<pi> automaton for commands\<close>

text \<open>
  \<^verbatim>\<open>Cmd\<pi>Aut\<close> adds the environment and the store, two dictionaries. The keys of the
  environment are names. The keys of the store are locations: numbers, which a Python
  dictionary identifies when they are equal as numbers (\<^verbatim>\<open>1\<close>, \<^verbatim>\<open>1.0\<close> and \<^verbatim>\<open>True\<close> are one
  key). An assignment to a key that is present keeps the key and its position and replaces the
  value; an assignment to a new key appends the entry.
\<close>

fun dict_set :: "(string \<times> num) list \<Rightarrow> string \<Rightarrow> num \<Rightarrow> (string \<times> num) list" where
  "dict_set [] k v = [(k, v)]"
| "dict_set ((k', v') # d) k v = (if k' = k then (k', v) # d else (k', v') # dict_set d k v)"

fun dict_update :: "(string \<times> num) list \<Rightarrow> (string \<times> num) list \<Rightarrow> (string \<times> num) list" where
  "dict_update d [] = d"
| "dict_update d ((k, v) # d2) = dict_update (dict_set d k v) d2"

fun sto_get :: "(num \<times> num) list \<Rightarrow> num \<Rightarrow> num option" where
  "sto_get [] l = None"
| "sto_get ((k, v) # st) l = (if py_eq k l then Some v else sto_get st l)"

fun sto_set :: "(num \<times> num) list \<Rightarrow> num \<Rightarrow> num \<Rightarrow> (num \<times> num) list" where
  "sto_set [] l v = [(l, v)]"
| "sto_set ((k, w) # st) l v = (if py_eq k l then (k, v) # st else (k, w) # sto_set st l v)"

record CmdAut = ExpAut +
  env :: "(string \<times> num) list"
  sto :: "(num \<times> num) list"

definition getLoc :: "'a CmdAut_scheme \<Rightarrow> string \<Rightarrow> error + num" where
  "getLoc s i = (case map_of (env s) i of None \<Rightarrow> Inl KeyError | Some l \<Rightarrow> Inr l)"

definition updateStore :: "num \<Rightarrow> num \<Rightarrow> 'a CmdAut_scheme \<Rightarrow> 'a CmdAut_scheme" where
  "updateStore l v s = s\<lparr>sto := sto_set (sto s) l v\<rparr>"

definition evalAssign :: "string \<Rightarrow> exp \<Rightarrow> 'a CmdAut_scheme \<Rightarrow> 'a CmdAut_scheme" where
  "evalAssign i e s = pushCnt (CExp e) (pushCnt (CKW CmdKW_ASSIGN) (pushVal (VStr i) s))"

definition evalAssignKW :: "'a CmdAut_scheme \<Rightarrow> error + 'a CmdAut_scheme" where
  "evalAssignKW s =
     bindE (popVal s) (\<lambda>(v, s1).
     bindE (popVal s1) (\<lambda>(i, s2).
       case (v, i) of
         (VNum x, VStr n) \<Rightarrow> bindE (getLoc s2 n) (\<lambda>l. Inr (updateStore l x s2))
       | _ \<Rightarrow> Inl OutsideModel))"

definition evalId :: "string \<Rightarrow> 'a CmdAut_scheme \<Rightarrow> error + 'a CmdAut_scheme" where
  "evalId i s =
     bindE (getLoc s i) (\<lambda>l.
       case sto_get (sto s) l of
         None \<Rightarrow> Inl KeyError
       | Some v \<Rightarrow> Inr (pushVal (VNum v) s))"

text \<open>
  \<^verbatim>\<open>__evalLoop\<close> builds a new \<^verbatim>\<open>Loop\<close> from the operands, so the assertion of the constructor
  runs again. \<^verbatim>\<open>__evalLoopKW\<close> pushes two popped values on the control stack: \<open>term_of_val\<close>
  is the entry a saved term becomes there.
\<close>

definition evalLoop :: "exp \<Rightarrow> cmd \<Rightarrow> 'a CmdAut_scheme \<Rightarrow> error + 'a CmdAut_scheme" where
  "evalLoop be bl s =
     (if isBoolExp be
      then Inr (pushCnt (CExp be) (pushCnt (CKW CmdKW_LOOP)
             (pushVal (VCmd bl) (pushVal (VCmd (Loop be bl)) s))))
      else Inl AssertionError)"

fun term_of_val :: "val \<Rightarrow> error + ctl" where
  "term_of_val (VExp e) = Inr (CExp e)"
| "term_of_val (VCmd c) = Inr (CCmd c)"
| "term_of_val v = Inl OutsideModel"

definition evalLoopKW :: "'a CmdAut_scheme \<Rightarrow> error + 'a CmdAut_scheme" where
  "evalLoopKW s =
     bindE (popVal s) (\<lambda>(t, s1).
       case t of
         VNum b \<Rightarrow>
           if truthy b
           then bindE (popVal s1) (\<lambda>(c, s2).
                bindE (popVal s2) (\<lambda>(lo, s3).
                bindE (term_of_val lo) (\<lambda>lo'.
                bindE (term_of_val c) (\<lambda>c'.
                  Inr (pushCnt c' (pushCnt lo' s3))))))
           else bindE (popVal s1) (\<lambda>(c, s2).
                bindE (popVal s2) (\<lambda>(lo, s3). Inr s3))
       | _ \<Rightarrow> Inl OutsideModel)"

definition evalCSeq :: "cmd \<Rightarrow> cmd \<Rightarrow> 'a CmdAut_scheme \<Rightarrow> 'a CmdAut_scheme" where
  "evalCSeq c1 c2 s = pushCnt (CCmd c1) (pushCnt (CCmd c2) s)"

text \<open>
  \<^verbatim>\<open>Cmd\<pi>Aut.eval\<close>: what is not a case of its own is pushed back and left to
  \<^verbatim>\<open>Exp\<pi>Aut.eval\<close>.
\<close>

fun CmdAut_rule :: "ctl \<Rightarrow> 'a CmdAut_scheme \<Rightarrow> error + 'a CmdAut_scheme" where
  "CmdAut_rule (CCmd (Assign i e)) s = Inr (evalAssign i e s)"
| "CmdAut_rule (CKW CmdKW_ASSIGN) s = evalAssignKW s"
| "CmdAut_rule (CExp (Id_e i)) s = evalId i s"
| "CmdAut_rule (CCmd (Loop be bl)) s = evalLoop be bl s"
| "CmdAut_rule (CKW CmdKW_LOOP) s = evalLoopKW s"
| "CmdAut_rule (CCmd (CSeq c1 c2)) s = Inr (evalCSeq c1 c2 s)"
| "CmdAut_rule c s = ExpAut_eval (pushCnt c s)"

definition CmdAut_eval :: "'a CmdAut_scheme \<Rightarrow> error + 'a CmdAut_scheme" where
  "CmdAut_eval s = bindE (popCnt s) (\<lambda>(c, s1). CmdAut_rule c s1)"

section \<open>The \<pi> automaton for declarations\<close>

text \<open>
  \<^verbatim>\<open>Dec\<pi>Aut\<close> adds the location ledger \<^verbatim>\<open>locs\<close>, a Python list. The machine appends to
  this list in place, \<^verbatim>\<open>__evalBlkDecKW\<close> pushes the list itself on the value stack and
  \<^verbatim>\<open>__evalBlk\<close> pushes a copy, so the list objects live in a heap: \<open>heap s ! a\<close> is the
  content of the list object \<open>a\<close>, \<open>locs s\<close> is the object the entry \<^verbatim>\<open>locs\<close> refers to, and
  \<open>VList a\<close> on the value stack refers to the object \<open>a\<close>. A copy is a new object at the end of
  the heap. A reference beyond the heap is no Python state (\<open>OutsideModel\<close>).
\<close>

record DecAut = CmdAut +
  locs :: nat
  heap :: "num list list"

definition DecAut_init :: DecAut where
  "DecAut_init = \<lparr>val = [], cnt = [], env = [], sto = [], locs = 0, heap = [[]]\<rparr>"

definition pushLoc :: "num \<Rightarrow> DecAut \<Rightarrow> DecAut" where
  "pushLoc l s = s\<lparr>heap := (heap s)[locs s := heap s ! locs s @ [l]]\<rparr>"

definition evalRef :: "exp \<Rightarrow> DecAut \<Rightarrow> DecAut" where
  "evalRef e s = pushCnt (CExp e) (pushCnt (CKW DecExpKW_REF) s)"

text \<open>
  \<^verbatim>\<open>max\<close> returns the first of the largest keys; \<^verbatim>\<open>+ 1\<close> adds the integer 1, so the new
  location is a float when that key is a float.
\<close>

fun py_max :: "num \<Rightarrow> num list \<Rightarrow> num" where
  "py_max m [] = m"
| "py_max m (k # ks) = py_max (if real_of_num m < real_of_num k then k else m) ks"

definition newLoc :: "(num \<times> num) list \<Rightarrow> num" where
  "newLoc st = (case map fst st of [] \<Rightarrow> F 0 | k # ks \<Rightarrow> py_add (py_max k ks) (I 1))"

definition evalRefKW :: "DecAut \<Rightarrow> error + DecAut" where
  "evalRefKW s =
     bindE (popVal s) (\<lambda>(v, s1).
       case v of
         VNum x \<Rightarrow>
           if locs s1 < length (heap s1)
           then (let l = newLoc (sto s1)
                 in Inr (pushVal (VNum l) (pushLoc l (updateStore l x s1))))
           else Inl OutsideModel
       | _ \<Rightarrow> Inl OutsideModel)"

definition evalBind :: "string \<Rightarrow> exp \<Rightarrow> DecAut \<Rightarrow> DecAut" where
  "evalBind i e s = pushCnt (CExp e) (pushCnt (CKW DecKW_BIND) (pushVal (VExp (Id_e i)) s))"

definition evalBindKW :: "DecAut \<Rightarrow> error + DecAut" where
  "evalBindKW s =
     bindE (popVal s) (\<lambda>(l, s1).
     bindE (popVal s1) (\<lambda>(i, s2).
       case (l, i) of
         (VNum x, VExp (Id_e n)) \<Rightarrow> Inr (pushVal (VDict [(n, x)]) s2)
       | _ \<Rightarrow> Inl OutsideModel))"

definition evalDSeq :: "dec \<Rightarrow> dec \<Rightarrow> DecAut \<Rightarrow> DecAut" where
  "evalDSeq d1 d2 s = pushCnt (CDec d1) (pushCnt (CDec d2) (pushCnt (CKW DecKW_DSEQ) s))"

definition evalDSeqKW :: "DecAut \<Rightarrow> error + DecAut" where
  "evalDSeqKW s =
     bindE (popVal s) (\<lambda>(d2, s1).
     bindE (popVal s1) (\<lambda>(d1, s2).
       case (d2, d1) of
         (VDict m2, VDict m1) \<Rightarrow> Inr (pushVal (VDict (dict_update m1 m2)) s2)
       | _ \<Rightarrow> Inl OutsideModel))"

definition evalBlk :: "dec \<Rightarrow> cmd \<Rightarrow> DecAut \<Rightarrow> error + DecAut" where
  "evalBlk ld c s =
     (if locs s < length (heap s)
      then Inr (pushCnt (CDec ld) (pushCnt (CKW DecCmdKW_BLKDEC)
             (pushVal (VCmd c) (pushVal (VList (length (heap s)))
               (s\<lparr>heap := heap s @ [heap s ! locs s]\<rparr>)))))
      else Inl OutsideModel)"

definition evalBlkDecKW :: "DecAut \<Rightarrow> error + DecAut" where
  "evalBlkDecKW s =
     bindE (popVal s) (\<lambda>(d, s1).
     bindE (popVal s1) (\<lambda>(c, s2).
       case d of
         VDict m \<Rightarrow>
           bindE (term_of_val c) (\<lambda>c'.
             Inr (pushCnt c' (pushCnt (CKW DecCmdKW_BLKCMD)
                   ((pushVal (VDict (env s2)) (pushVal (VList (locs s2)) s2))
                      \<lparr>env := dict_update (env s2) m\<rparr>))))
       | _ \<Rightarrow> Inl OutsideModel))"

text \<open>
  \<^verbatim>\<open>k not in ls\<close> compares \<open>k\<close> with the elements of the list by \<^verbatim>\<open>==\<close>.
\<close>

definition in_list :: "num \<Rightarrow> num list \<Rightarrow> bool" where
  "in_list k ls = list_ex (py_eq k) ls"

definition evalBlkCmdKW :: "DecAut \<Rightarrow> error + DecAut" where
  "evalBlkCmdKW s =
     bindE (popVal s) (\<lambda>(en, s1).
     bindE (popVal s1) (\<lambda>(ls, s2).
     bindE (popVal s2) (\<lambda>(ols, s3).
       case (en, ls, ols) of
         (VDict e, VList a, VList b) \<Rightarrow>
           if a < length (heap s3)
           then Inr (s3\<lparr>env := e,
                        sto := filter (\<lambda>(k, v). \<not> in_list k (heap s3 ! a)) (sto s3),
                        locs := b\<rparr>)
           else Inl OutsideModel
       | _ \<Rightarrow> Inl OutsideModel)))"

text \<open>
  \<^verbatim>\<open>Dec\<pi>Aut.eval\<close>: what is not a case of its own is pushed back and left to
  \<^verbatim>\<open>Cmd\<pi>Aut.eval\<close>, which leaves what is not a case of its own to \<^verbatim>\<open>Exp\<pi>Aut.eval\<close>.
\<close>

fun DecAut_rule :: "ctl \<Rightarrow> DecAut \<Rightarrow> error + DecAut" where
  "DecAut_rule (CDec (Bind i e)) s = Inr (evalBind i e s)"
| "DecAut_rule (CKW DecKW_BIND) s = evalBindKW s"
| "DecAut_rule (CDec (DSeq d1 d2)) s = Inr (evalDSeq d1 d2 s)"
| "DecAut_rule (CKW DecKW_DSEQ) s = evalDSeqKW s"
| "DecAut_rule (CExp (Ref e)) s = Inr (evalRef e s)"
| "DecAut_rule (CKW DecExpKW_REF) s = evalRefKW s"
| "DecAut_rule (CCmd (Blk ld c)) s = evalBlk ld c s"
| "DecAut_rule (CKW DecCmdKW_BLKDEC) s = evalBlkDecKW s"
| "DecAut_rule (CKW DecCmdKW_BLKCMD) s = evalBlkCmdKW s"
| "DecAut_rule d s = CmdAut_eval (pushCnt d s)"

definition DecAut_eval :: "DecAut \<Rightarrow> error + DecAut" where
  "DecAut_eval s = bindE (popCnt s) (\<lambda>(d, s1). DecAut_rule d s1)"

section \<open>Driving a machine\<close>

text \<open>
  The callers of the machine run \<^verbatim>\<open>while not m.emptyCnt(): m.eval()\<close>. The loop need not
  end, so \<open>drive\<close> takes the number of steps it may make: \<open>None\<close> says that the control
  stack is not empty after that many steps, \<open>Some (Inl e)\<close> that a step raised \<open>e\<close>, and
  \<open>Some (Inr s)\<close> that the loop ended in the state \<open>s\<close>. \<open>steps\<close> makes exactly \<open>n\<close> steps.
\<close>

fun drive ::
  "('a ExpAut_scheme \<Rightarrow> error + 'a ExpAut_scheme) \<Rightarrow> nat \<Rightarrow> 'a ExpAut_scheme
     \<Rightarrow> (error + 'a ExpAut_scheme) option" where
  "drive ev 0 s = (if emptyCnt s then Some (Inr s) else None)"
| "drive ev (Suc n) s =
     (if emptyCnt s then Some (Inr s)
      else case ev s of Inl e \<Rightarrow> Some (Inl e) | Inr s1 \<Rightarrow> drive ev n s1)"

fun steps :: "('s \<Rightarrow> error + 's) \<Rightarrow> nat \<Rightarrow> 's \<Rightarrow> error + 's" where
  "steps ev 0 s = Inr s"
| "steps ev (Suc n) s = bindE (ev s) (steps ev n)"

section \<open>Runs\<close>

text \<open>
  \<open>runs_to ev s s'\<close>: driven from \<open>s\<close>, the machine reaches an empty control stack in the
  state \<open>s'\<close>. \<open>seed en st t\<close> is a fresh declaration machine given the environment \<open>en\<close> and
  the store \<open>st\<close>, with the entry \<open>t\<close> pushed on its control stack.
\<close>

definition runs_to ::
  "('a ExpAut_scheme \<Rightarrow> error + 'a ExpAut_scheme) \<Rightarrow> 'a ExpAut_scheme \<Rightarrow> 'a ExpAut_scheme \<Rightarrow> bool" where
  "runs_to ev s s' = (\<exists>n. drive ev n s = Some (Inr s'))"


text \<open>
  A step reads and changes the top of the control stack only: \<open>app_cnt D s\<close> is \<open>s\<close> with
  the entries \<open>D\<close> below its control stack, and \<open>frame_ok ev\<close> says that \<open>ev\<close> does on
  \<open>app_cnt D s\<close> what it does on \<open>s\<close>.
\<close>

definition app_cnt :: "ctl list \<Rightarrow> 'a ExpAut_scheme \<Rightarrow> 'a ExpAut_scheme" where
  "app_cnt D s = s\<lparr>cnt := cnt s @ D\<rparr>"

definition lift_cnt :: "ctl list \<Rightarrow> error + 'a ExpAut_scheme \<Rightarrow> error + 'a ExpAut_scheme" where
  "lift_cnt D r = (case r of Inl e \<Rightarrow> Inl e | Inr s \<Rightarrow> Inr (app_cnt D s))"

definition frame_ok :: "('a ExpAut_scheme \<Rightarrow> error + 'a ExpAut_scheme) \<Rightarrow> bool" where
  "frame_ok ev = (\<forall>s D. cnt s \<noteq> [] \<longrightarrow> ev (app_cnt D s) = lift_cnt D (ev s))"

section \<open>Pure expressions\<close>

text \<open>
  An expression is pure when it is built from \<^verbatim>\<open>Num\<close>, \<^verbatim>\<open>Sum\<close>, \<^verbatim>\<open>Sub\<close>, \<^verbatim>\<open>Mul\<close>, \<^verbatim>\<open>Eq\<close> and
  \<^verbatim>\<open>Not\<close> only. \<open>pure_val\<close> is the value of a pure expression and \<open>pure_steps\<close> the number
  of steps its evaluation takes.
\<close>

fun pure :: "exp \<Rightarrow> bool" where
  "pure (Num f) = True"
| "pure (Sum_e e1 e2) = (pure e1 \<and> pure e2)"
| "pure (Sub e1 e2) = (pure e1 \<and> pure e2)"
| "pure (Mul e1 e2) = (pure e1 \<and> pure e2)"
| "pure (Eq e1 e2) = (pure e1 \<and> pure e2)"
| "pure (Not_e e) = pure e"
| "pure e = False"

fun pure_val :: "exp \<Rightarrow> num" where
  "pure_val (Num f) = F f"
| "pure_val (Sum_e e1 e2) = py_add (pure_val e1) (pure_val e2)"
| "pure_val (Sub e1 e2) = py_sub (pure_val e1) (pure_val e2)"
| "pure_val (Mul e1 e2) = py_mul (pure_val e1) (pure_val e2)"
| "pure_val (Eq e1 e2) = B (py_eq (pure_val e1) (pure_val e2))"
| "pure_val (Not_e e) = B (\<not> truthy (pure_val e))"
| "pure_val e = F 0"

fun pure_steps :: "exp \<Rightarrow> nat" where
  "pure_steps (Sum_e e1 e2) = Suc (pure_steps e2 + (pure_steps e1 + 1))"
| "pure_steps (Sub e1 e2) = Suc (pure_steps e2 + (pure_steps e1 + 1))"
| "pure_steps (Mul e1 e2) = Suc (pure_steps e2 + (pure_steps e1 + 1))"
| "pure_steps (Eq e1 e2) = Suc (pure_steps e2 + (pure_steps e1 + 1))"
| "pure_steps (Not_e e) = Suc (pure_steps e + 1)"
| "pure_steps e = 1"

section \<open>The constructors of the terms\<close>

text \<open>
  Every \<^verbatim>\<open>__init__\<close> of a term class asserts the classes of its arguments. The arguments
  are arbitrary Python objects: floats, integers, booleans, strings and terms. The
  predicates are the \<^verbatim>\<open>isinstance\<close> tests (a Python \<^verbatim>\<open>bool\<close> or \<^verbatim>\<open>int\<close> is not a \<^verbatim>\<open>float\<close>),
  and \<open>K_init\<close> is the constructor of the class \<open>K\<close>: the term, or the \<^verbatim>\<open>AssertionError\<close> of
  its \<^verbatim>\<open>assert\<close>.
\<close>

datatype pyobj =
    PFloat real
  | PInt int
  | PBool bool
  | PStr string
  | PExp exp
  | PCmd cmd
  | PDec dec

fun isExp :: "pyobj \<Rightarrow> bool" where
  "isExp (PExp e) = True"
| "isExp x = False"

fun isBoolExpObj :: "pyobj \<Rightarrow> bool" where
  "isBoolExpObj (PExp e) = isBoolExp e"
| "isBoolExpObj x = False"

fun isId :: "pyobj \<Rightarrow> bool" where
  "isId (PExp (Id_e i)) = True"
| "isId x = False"

fun isCmd :: "pyobj \<Rightarrow> bool" where
  "isCmd (PCmd c) = True"
| "isCmd x = False"

fun isDec :: "pyobj \<Rightarrow> bool" where
  "isDec (PDec d) = True"
| "isDec x = False"

fun isFloat :: "pyobj \<Rightarrow> bool" where
  "isFloat (PFloat f) = True"
| "isFloat x = False"

fun isStr :: "pyobj \<Rightarrow> bool" where
  "isStr (PStr s) = True"
| "isStr x = False"

definition Num_init :: "pyobj \<Rightarrow> error + exp" where
  "Num_init x = (case x of PFloat f \<Rightarrow> Inr (Num f) | _ \<Rightarrow> Inl AssertionError)"

definition Sum_init :: "pyobj \<Rightarrow> pyobj \<Rightarrow> error + exp" where
  "Sum_init x y =
     (case (x, y) of
        (PExp e1, PExp e2) \<Rightarrow> Inr (Sum_e e1 e2)
      | _ \<Rightarrow> Inl AssertionError)"

definition Sub_init :: "pyobj \<Rightarrow> pyobj \<Rightarrow> error + exp" where
  "Sub_init x y =
     (case (x, y) of
        (PExp e1, PExp e2) \<Rightarrow> Inr (Sub e1 e2)
      | _ \<Rightarrow> Inl AssertionError)"

definition Mul_init :: "pyobj \<Rightarrow> pyobj \<Rightarrow> error + exp" where
  "Mul_init x y =
     (case (x, y) of
        (PExp e1, PExp e2) \<Rightarrow> Inr (Mul e1 e2)
      | _ \<Rightarrow> Inl AssertionError)"

definition Eq_init :: "pyobj \<Rightarrow> pyobj \<Rightarrow> error + exp" where
  "Eq_init x y =
     (case (x, y) of
        (PExp e1, PExp e2) \<Rightarrow> Inr (Eq e1 e2)
      | _ \<Rightarrow> Inl AssertionError)"

definition Not_init :: "pyobj \<Rightarrow> error + exp" where
  "Not_init x = (case x of PExp e \<Rightarrow> Inr (Not_e e) | _ \<Rightarrow> Inl AssertionError)"

definition Id_init :: "pyobj \<Rightarrow> error + exp" where
  "Id_init x = (case x of PStr s \<Rightarrow> Inr (Id_e s) | _ \<Rightarrow> Inl AssertionError)"

definition Assign_init :: "pyobj \<Rightarrow> pyobj \<Rightarrow> error + cmd" where
  "Assign_init x y =
     (case (x, y) of
        (PExp (Id_e i), PExp e) \<Rightarrow> Inr (Assign i e)
      | _ \<Rightarrow> Inl AssertionError)"

definition Loop_init :: "pyobj \<Rightarrow> pyobj \<Rightarrow> error + cmd" where
  "Loop_init x y =
     (case (x, y) of
        (PExp be, PCmd c) \<Rightarrow> (if isBoolExp be then Inr (Loop be c) else Inl AssertionError)
      | _ \<Rightarrow> Inl AssertionError)"

definition CSeq_init :: "pyobj \<Rightarrow> pyobj \<Rightarrow> error + cmd" where
  "CSeq_init x y =
     (case (x, y) of
        (PCmd c1, PCmd c2) \<Rightarrow> Inr (CSeq c1 c2)
      | _ \<Rightarrow> Inl AssertionError)"

definition Bind_init :: "pyobj \<Rightarrow> pyobj \<Rightarrow> error + dec" where
  "Bind_init x y =
     (case (x, y) of
        (PExp (Id_e i), PExp e) \<Rightarrow> Inr (Bind i e)
      | _ \<Rightarrow> Inl AssertionError)"

definition Ref_init :: "pyobj \<Rightarrow> error + exp" where
  "Ref_init x = (case x of PExp e \<Rightarrow> Inr (Ref e) | _ \<Rightarrow> Inl AssertionError)"

definition Cns_init :: "pyobj \<Rightarrow> error + exp" where
  "Cns_init x = (case x of PExp e \<Rightarrow> Inr (Cns e) | _ \<Rightarrow> Inl AssertionError)"

definition Blk_init :: "pyobj \<Rightarrow> pyobj \<Rightarrow> error + cmd" where
  "Blk_init x y =
     (case (x, y) of
        (PDec d, PCmd c) \<Rightarrow> Inr (Blk d c)
      | _ \<Rightarrow> Inl AssertionError)"

definition DSeq_init :: "pyobj \<Rightarrow> pyobj \<Rightarrow> error + dec" where
  "DSeq_init x y =
     (case (x, y) of
        (PDec d1, PDec d2) \<Rightarrow> Inr (DSeq d1 d2)
      | _ \<Rightarrow> Inl AssertionError)"

text \<open>
  The commands that the constructors can build: every \<^verbatim>\<open>Loop\<close> in them has a \<^verbatim>\<open>BoolExp\<close> as
  its first operand. A state is built when the commands on its two stacks are.
\<close>

fun built_cmd :: "cmd \<Rightarrow> bool" where
  "built_cmd (Assign i e) = True"
| "built_cmd (Loop be c) = (isBoolExp be \<and> built_cmd c)"
| "built_cmd (CSeq c1 c2) = (built_cmd c1 \<and> built_cmd c2)"
| "built_cmd (Blk d c) = built_cmd c"

fun built_obj :: "pyobj \<Rightarrow> bool" where
  "built_obj (PCmd c) = built_cmd c"
| "built_obj x = True"

fun built_ctl :: "ctl \<Rightarrow> bool" where
  "built_ctl (CCmd c) = built_cmd c"
| "built_ctl x = True"

fun built_val :: "val \<Rightarrow> bool" where
  "built_val (VCmd c) = built_cmd c"
| "built_val x = True"

definition built_state :: "DecAut \<Rightarrow> bool" where
  "built_state s = (list_all built_ctl (cnt s) \<and> list_all built_val (val s))"

section \<open>The factorial example\<close>

text \<open>The terms \<^verbatim>\<open>fac\<close>, \<^verbatim>\<open>dec\<close> and \<^verbatim>\<open>fac_blk\<close> of the last cell of \<^verbatim>\<open>pi.py\<close>.\<close>

definition fac :: cmd where
  "fac = Loop (Not_e (Eq (Id_e ''y'') (Num 0)))
           (CSeq (Assign ''x'' (Mul (Id_e ''x'') (Id_e ''y'')))
                 (Assign ''y'' (Sub (Id_e ''y'') (Num 1))))"

definition dec :: dec where
  "dec = DSeq (Bind ''x'' (Ref (Num 1))) (Bind ''y'' (Ref (Num 2)))"

definition fac_blk :: cmd where
  "fac_blk = Blk dec fac"

section \<open>Observing a run\<close>

text \<open>
  \<open>on_top_count t n s\<close> counts the steps, among the first \<open>n\<close> steps of the run from \<open>s\<close>, that
  pop the entry \<open>t\<close> from the control stack: the number of times \<open>t\<close> is executed.
  \<open>allocs n s\<close> lists the locations that \<^verbatim>\<open>__newLoc\<close> returns in these steps, in the order of
  their allocation.
\<close>

fun on_top_count :: "ctl \<Rightarrow> nat \<Rightarrow> DecAut \<Rightarrow> nat" where
  "on_top_count t 0 s = 0"
| "on_top_count t (Suc n) s =
     (if emptyCnt s then 0
      else (case cnt s of c # cs \<Rightarrow> (if c = t then 1 else 0) | [] \<Rightarrow> 0)
         + (case DecAut_eval s of Inl e \<Rightarrow> 0 | Inr s1 \<Rightarrow> on_top_count t n s1))"



section \<open>The ledgers across a run\<close>

text \<open>
  What a run does to the heap of list objects. \<open>heap_appends s s'\<close>: from \<open>s\<close> to \<open>s'\<close> the
  ledger is the same object, no object was created, and the only change is that locations
  were appended to the ledger. \<open>heap_keeps s s'\<close>: objects may have been created and the
  ledger may be one of the new objects, the objects of \<open>s\<close> other than its ledger are
  unchanged, and the ledger of \<open>s\<close> was only appended to.
\<close>

definition heap_appends :: "DecAut \<Rightarrow> DecAut \<Rightarrow> bool" where
  "heap_appends s s' =
     (locs s' = locs s \<and> length (heap s') = length (heap s)
      \<and> (\<forall>a. a \<noteq> locs s \<longrightarrow> heap s' ! a = heap s ! a)
      \<and> (\<exists>g. heap s' ! locs s = heap s ! locs s @ g))"

definition heap_keeps :: "DecAut \<Rightarrow> DecAut \<Rightarrow> bool" where
  "heap_keeps s s' =
     (length (heap s) \<le> length (heap s') \<and> locs s' < length (heap s')
      \<and> (locs s' = locs s \<or> length (heap s) \<le> locs s')
      \<and> (\<forall>a < length (heap s). a \<noteq> locs s \<longrightarrow> heap s' ! a = heap s ! a)
      \<and> (\<exists>g. heap s' ! locs s = heap s ! locs s @ g))"

text \<open>
  What the completed run of a term leaves behind, from the state \<open>s\<close> before the term was
  pushed to the state \<open>s'\<close> in which the control stack is empty again. An expression pushes one
  number, a declaration pushes one dictionary, a command pushes nothing; none of them changes
  the environment.
\<close>

definition exp_post :: "DecAut \<Rightarrow> DecAut \<Rightarrow> bool" where
  "exp_post s s' = (\<exists>v. val s' = VNum v # val s \<and> env s' = env s \<and> heap_appends s s')"

definition dec_post :: "DecAut \<Rightarrow> DecAut \<Rightarrow> bool" where
  "dec_post s s' = (\<exists>m. val s' = VDict m # val s \<and> env s' = env s \<and> heap_appends s s')"

definition cmd_post :: "DecAut \<Rightarrow> DecAut \<Rightarrow> bool" where
  "cmd_post s s' = (val s' = val s \<and> env s' = env s \<and> heap_keeps s s')"

section \<open>Arithmetic on two literals\<close>

lemmas ExpAut_defs =
  ExpAut_eval_def ExpAut_init_def bindE_def popCnt_def pushCnt_def popVal_def pushVal_def
  emptyCnt_def pushBin_def popBin_def evalSum_def evalSub_def evalMul_def evalEq_def
  evalNot_def evalNum_def evalSumKW_def evalSubKW_def evalMulKW_def evalEqKW_def
  evalNotKW_def


section \<open>A step looks at the top of the control stack only\<close>

lemmas CmdAut_defs =
  CmdAut_eval_def getLoc_def updateStore_def evalAssign_def evalAssignKW_def evalId_def
  evalLoop_def evalLoopKW_def evalCSeq_def

lemmas DecAut_defs =
  DecAut_eval_def pushLoc_def evalRef_def evalRefKW_def evalBind_def evalBindKW_def
  evalDSeq_def evalDSeqKW_def evalBlk_def evalBlkDecKW_def evalBlkCmdKW_def

lemma ExpAut_rule_frame:
  "ExpAut_rule e (app_cnt D s) = lift_cnt D (ExpAut_rule e s)"
  by (cases "(e, s)" rule: ExpAut_rule.cases)
     (auto simp: app_cnt_def lift_cnt_def ExpAut_defs split: list.splits val.splits)

lemma ExpAut_eval_frame:
  "cnt s \<noteq> [] \<Longrightarrow> ExpAut_eval (app_cnt D s) = lift_cnt D (ExpAut_eval s)"
  using ExpAut_rule_frame [of _ D "s\<lparr>cnt := tl (cnt s)\<rparr>"]
  by (cases "cnt s") (auto simp: ExpAut_eval_def bindE_def popCnt_def app_cnt_def lift_cnt_def)

lemma CmdAut_rule_frame:
  "CmdAut_rule e (app_cnt D s) = lift_cnt D (CmdAut_rule e s)"
proof (cases "(e, s)" rule: CmdAut_rule.cases)
qed (auto simp: app_cnt_def lift_cnt_def ExpAut_defs CmdAut_defs
          split: list.splits val.splits option.splits sum.splits)

lemma CmdAut_eval_frame:
  "cnt s \<noteq> [] \<Longrightarrow> CmdAut_eval (app_cnt D s) = lift_cnt D (CmdAut_eval s)"
  using CmdAut_rule_frame [of _ D "s\<lparr>cnt := tl (cnt s)\<rparr>"]
  by (cases "cnt s") (auto simp: CmdAut_eval_def bindE_def popCnt_def app_cnt_def lift_cnt_def)

lemma DecAut_rule_frame:
  "DecAut_rule e (app_cnt D s) = lift_cnt D (DecAut_rule e s)"
proof (cases "(e, s)" rule: DecAut_rule.cases)
qed (auto simp: app_cnt_def lift_cnt_def ExpAut_defs CmdAut_defs DecAut_defs Let_def
          split: list.splits val.splits option.splits sum.splits exp.splits)

lemma DecAut_eval_frame:
  "cnt s \<noteq> [] \<Longrightarrow> DecAut_eval (app_cnt D s) = lift_cnt D (DecAut_eval s)"
  using DecAut_rule_frame [of _ D "s\<lparr>cnt := tl (cnt s)\<rparr>"]
  by (cases "cnt s") (auto simp: DecAut_eval_def bindE_def popCnt_def app_cnt_def lift_cnt_def)

lemma frame_ok_DecAut: "frame_ok DecAut_eval"
  by (simp add: frame_ok_def DecAut_eval_frame)

lemma frame_ok_CmdAut: "frame_ok CmdAut_eval"
  by (simp add: frame_ok_def CmdAut_eval_frame)

lemma frame_ok_ExpAut: "frame_ok ExpAut_eval"
  by (simp add: frame_ok_def ExpAut_eval_frame)

lemma drive_mono: "drive ev n s = Some r \<Longrightarrow> drive ev (n + m) s = Some r"
proof (induction n arbitrary: s)
  case 0
  then show ?case by (cases m) (auto split: if_splits)
next
  case (Suc n)
  then show ?case by (auto split: if_splits sum.splits)
qed

lemma drive_mono_le: "drive ev n s = Some r \<Longrightarrow> n \<le> m \<Longrightarrow> drive ev m s = Some r"
  using drive_mono [of ev n s r "m - n"] by simp


lemma drive_done: "drive ev n s = Some (Inr s') \<Longrightarrow> cnt s' = []"
  by (induction n arbitrary: s) (auto simp: emptyCnt_def split: if_splits sum.splits)

lemma app_cnt_empty: "cnt s = [] \<Longrightarrow> app_cnt D s = s\<lparr>cnt := D\<rparr>"
  by (simp add: app_cnt_def)

lemma drive_split:
  assumes "frame_ok ev"
  shows "drive ev n (app_cnt D s) = Some (Inr s') \<Longrightarrow>
         \<exists>n1 n2 s1. n1 + n2 \<le> n \<and> drive ev n1 s = Some (Inr s1)
            \<and> drive ev n2 (s1\<lparr>cnt := D\<rparr>) = Some (Inr s')"
proof (induction n arbitrary: s)
  case 0
  then have e: "cnt s = []" by (auto simp: emptyCnt_def app_cnt_def split: if_splits)
  with 0 have "drive ev 0 s = Some (Inr s) \<and> drive ev 0 (s\<lparr>cnt := D\<rparr>) = Some (Inr s')"
    by (simp add: emptyCnt_def app_cnt_def)
  then show ?case by (metis add_0 le0)
next
  case (Suc n)
  show ?case
  proof (cases "cnt s = []")
    case True
    with Suc.prems have "drive ev 0 s = Some (Inr s) \<and>
        drive ev (Suc n) (s\<lparr>cnt := D\<rparr>) = Some (Inr s')"
      by (simp add: emptyCnt_def app_cnt_def)
    then show ?thesis by (metis add_0 le_refl)
  next
    case False
    then have f: "ev (app_cnt D s) = lift_cnt D (ev s)"
      using assms by (simp add: frame_ok_def)
    from False have ne: "\<not> emptyCnt (app_cnt D s)" "\<not> emptyCnt s"
      by (simp_all add: emptyCnt_def app_cnt_def)
    from Suc.prems ne f obtain s2 where s2: "ev s = Inr s2"
        and d: "drive ev n (app_cnt D s2) = Some (Inr s')"
      by (cases "ev s") (auto simp: lift_cnt_def)
    from Suc.IH [OF d] obtain n1 n2 s1 where
      "n1 + n2 \<le> n" "drive ev n1 s2 = Some (Inr s1)"
      "drive ev n2 (s1\<lparr>cnt := D\<rparr>) = Some (Inr s')" by blast
    with s2 ne have "Suc n1 + n2 \<le> Suc n \<and> drive ev (Suc n1) s = Some (Inr s1)
        \<and> drive ev n2 (s1\<lparr>cnt := D\<rparr>) = Some (Inr s')" by simp
    then show ?thesis by blast
  qed
qed

lemma drive_append:
  assumes "frame_ok ev"
  shows "drive ev n s = Some (Inr s1) \<Longrightarrow> drive ev m (s1\<lparr>cnt := D\<rparr>) = Some r
      \<Longrightarrow> drive ev (n + m) (app_cnt D s) = Some r"
proof (induction n arbitrary: s)
  case 0
  then have "cnt s = []" "s1 = s" by (auto simp: emptyCnt_def split: if_splits)
  with 0 show ?case by (simp add: app_cnt_def)
next
  case (Suc n)
  show ?case
  proof (cases "cnt s = []")
    case True
    with Suc.prems have "s1 = s" by (simp add: emptyCnt_def)
    with True Suc.prems(2) show ?thesis
      using drive_mono_le [of ev m "s1\<lparr>cnt := D\<rparr>" r "Suc n + m"] by (simp add: app_cnt_def)
  next
    case False
    then have f: "ev (app_cnt D s) = lift_cnt D (ev s)"
      using assms by (simp add: frame_ok_def)
    from False have ne: "\<not> emptyCnt (app_cnt D s)" "\<not> emptyCnt s"
      by (simp_all add: emptyCnt_def app_cnt_def)
    from Suc.prems(1) ne obtain s2 where s2: "ev s = Inr s2"
        and d: "drive ev n s2 = Some (Inr s1)"
      by (cases "ev s") auto
    from Suc.IH [OF d Suc.prems(2)] s2 f ne show ?thesis
      by (simp add: lift_cnt_def)
  qed
qed

lemma drive_Suc_step:
  "cnt s \<noteq> [] \<Longrightarrow> ev s = Inr s1 \<Longrightarrow> drive ev (Suc n) s = drive ev n s1"
  by (simp add: emptyCnt_def)

lemma drive_cons:
  assumes "frame_ok ev"
    and "drive ev n (s\<lparr>cnt := [c]\<rparr>) = Some (Inr s1)"
    and "drive ev m (s1\<lparr>cnt := D\<rparr>) = Some r"
  shows "drive ev (n + m) (s\<lparr>cnt := c # D\<rparr>) = Some r"
  using drive_append [OF assms(1) assms(2) assms(3)] by (simp add: app_cnt_def)

lemma drive_cons_split:
  assumes "frame_ok ev"
    and "drive ev n (s\<lparr>cnt := c # D\<rparr>) = Some (Inr s')"
  shows "\<exists>n1 n2 s1. n1 + n2 \<le> n \<and> drive ev n1 (s\<lparr>cnt := [c]\<rparr>) = Some (Inr s1)
            \<and> drive ev n2 (s1\<lparr>cnt := D\<rparr>) = Some (Inr s')"
  using drive_split [OF assms(1), of n D "s\<lparr>cnt := [c]\<rparr>" s'] assms(2)
  by (simp add: app_cnt_def)

section \<open>Determinism\<close>


section \<open>Sequential composition\<close>

text \<open>
  C5. From a state with an empty control stack, running \<open>CSeq(c1, c2)\<close> to completion ends
  in the state \<open>s'\<close> exactly when running \<open>c1\<close> to completion ends in some state \<open>s1\<close> and
  running \<open>c2\<close> to completion from \<open>s1\<close> ends in \<open>s'\<close>. The final states are the same, so
  the final stores are, and \<open>c1\<close> is fully evaluated before \<open>c2\<close> starts.
\<close>

theorem cseq_composition:
  assumes "cnt s = []"
  shows "runs_to DecAut_eval (pushCnt (CCmd (CSeq c1 c2)) s) s' =
     (\<exists>s1. runs_to DecAut_eval (pushCnt (CCmd c1) s) s1
          \<and> runs_to DecAut_eval (pushCnt (CCmd c2) s1) s')"
proof
  have st: "DecAut_eval (pushCnt (CCmd (CSeq c1 c2)) s) = Inr (s\<lparr>cnt := [CCmd c1, CCmd c2]\<rparr>)"
    using assms by (simp add: DecAut_defs CmdAut_defs ExpAut_defs)
  have ne: "cnt (pushCnt (CCmd (CSeq c1 c2)) s) \<noteq> []" by (simp add: pushCnt_def)
  have p1: "pushCnt (CCmd c1) s = s\<lparr>cnt := [CCmd c1]\<rparr>"
    using assms by (simp add: pushCnt_def)
  {
    assume "runs_to DecAut_eval (pushCnt (CCmd (CSeq c1 c2)) s) s'"
    then obtain n where n: "drive DecAut_eval n (pushCnt (CCmd (CSeq c1 c2)) s) = Some (Inr s')"
      by (auto simp: runs_to_def)
    then obtain k where k: "n = Suc k" using ne by (cases n) (auto simp: emptyCnt_def)
    with n st ne have "drive DecAut_eval k (s\<lparr>cnt := CCmd c1 # [CCmd c2]\<rparr>) = Some (Inr s')"
      by (simp add: emptyCnt_def)
    from drive_cons_split [OF frame_ok_DecAut this] obtain n1 n2 s1 where
      a: "drive DecAut_eval n1 (s\<lparr>cnt := [CCmd c1]\<rparr>) = Some (Inr s1)" and
      b: "drive DecAut_eval n2 (s1\<lparr>cnt := [CCmd c2]\<rparr>) = Some (Inr s')" by blast
    from drive_done [OF a] have p2: "pushCnt (CCmd c2) s1 = s1\<lparr>cnt := [CCmd c2]\<rparr>"
      by (simp add: pushCnt_def)
    have r1: "runs_to DecAut_eval (pushCnt (CCmd c1) s) s1"
      unfolding runs_to_def p1 using a by blast
    have r2: "runs_to DecAut_eval (pushCnt (CCmd c2) s1) s'"
      unfolding runs_to_def p2 using b by blast
    from r1 r2 show "\<exists>s1. runs_to DecAut_eval (pushCnt (CCmd c1) s) s1
          \<and> runs_to DecAut_eval (pushCnt (CCmd c2) s1) s'"
      by blast
  }
  {
    assume "\<exists>s1. runs_to DecAut_eval (pushCnt (CCmd c1) s) s1
          \<and> runs_to DecAut_eval (pushCnt (CCmd c2) s1) s'"
    then obtain s1 n1 n2 where
      a: "drive DecAut_eval n1 (pushCnt (CCmd c1) s) = Some (Inr s1)" and
      b: "drive DecAut_eval n2 (pushCnt (CCmd c2) s1) = Some (Inr s')"
      by (auto simp: runs_to_def)
    from drive_done [OF a] have p2: "pushCnt (CCmd c2) s1 = s1\<lparr>cnt := [CCmd c2]\<rparr>"
      by (simp add: pushCnt_def)
    from drive_cons [where ev = DecAut_eval and n = n1 and s = s and c = "CCmd c1" and ?s1.0 = s1
        and m = n2 and D = "[CCmd c2]" and r = "Inr s'", OF frame_ok_DecAut] a b p1 p2
    have"drive DecAut_eval (n1 + n2) (s\<lparr>cnt := [CCmd c1, CCmd c2]\<rparr>) = Some (Inr s')" by simp
    with st ne have "drive DecAut_eval (Suc (n1 + n2)) (pushCnt (CCmd (CSeq c1 c2)) s) = Some (Inr s')"
      by (simp add: emptyCnt_def)
    then show "runs_to DecAut_eval (pushCnt (CCmd (CSeq c1 c2)) s) s'"
      unfolding runs_to_def by blast
  }
qed

lemma drive_one:
  "cnt s \<noteq> [] \<Longrightarrow> ev s = Inr s1 \<Longrightarrow> cnt s1 = [] \<Longrightarrow> drive ev (Suc 0) s = Some (Inr s1)"
  by (simp add: emptyCnt_def)

section \<open>Pure expressions leave the rest of the state alone\<close>

lemma drive_step:
  "cnt s \<noteq> [] \<Longrightarrow> ev s = Inr s1 \<Longrightarrow> drive ev n s1 = Some r \<Longrightarrow> drive ev (Suc n) s = Some r"
  by (simp add: emptyCnt_def)

lemma pure_bin_run:
  assumes step: "\<And>s :: DecAut. DecAut_eval (s\<lparr>cnt := [CExp e]\<rparr>)
                  = Inr (s\<lparr>cnt := [CExp e2, CExp e1, CKW k]\<rparr>)"
    and comb: "\<And>(s :: DecAut) a b V. val s = VNum a # VNum b # V \<Longrightarrow>
                  DecAut_eval (s\<lparr>cnt := [CKW k]\<rparr>) = Inr (s\<lparr>cnt := [], val := VNum (f a b) # V\<rparr>)"
    and r1: "\<And>s :: DecAut. drive DecAut_eval n1 (s\<lparr>cnt := [CExp e1]\<rparr>)
                  = Some (Inr (s\<lparr>cnt := [], val := VNum v1 # val s\<rparr>))"
    and r2: "\<And>s :: DecAut. drive DecAut_eval n2 (s\<lparr>cnt := [CExp e2]\<rparr>)
                  = Some (Inr (s\<lparr>cnt := [], val := VNum v2 # val s\<rparr>))"
  shows "drive DecAut_eval (Suc (n2 + (n1 + 1))) (s\<lparr>cnt := [CExp e]\<rparr>)
           = Some (Inr (s\<lparr>cnt := [], val := VNum (f v1 v2) # val s\<rparr>))"
proof -
  let ?s2 = "s\<lparr>cnt := [], val := VNum v2 # val s\<rparr>"
  let ?s1 = "?s2\<lparr>cnt := [], val := VNum v1 # val ?s2\<rparr>"
  have c: "drive DecAut_eval 1 (?s1\<lparr>cnt := [CKW k]\<rparr>)
             = Some (Inr (s\<lparr>cnt := [], val := VNum (f v1 v2) # val s\<rparr>))"
    using comb [of ?s1 v1 v2 "val s"] by (simp add: emptyCnt_def)
  have b: "drive DecAut_eval (n1 + 1) (?s2\<lparr>cnt := [CExp e1, CKW k]\<rparr>)
             = Some (Inr (s\<lparr>cnt := [], val := VNum (f v1 v2) # val s\<rparr>))"
    using drive_cons [OF frame_ok_DecAut r1 [of ?s2] c] by simp
  have a: "drive DecAut_eval (n2 + (n1 + 1)) (s\<lparr>cnt := [CExp e2, CExp e1, CKW k]\<rparr>)
             = Some (Inr (s\<lparr>cnt := [], val := VNum (f v1 v2) # val s\<rparr>))"
    using drive_cons [OF frame_ok_DecAut r2 [of s] b] by simp
  show ?thesis
    using a step [of s] by (simp add: emptyCnt_def)
qed

text \<open>
  C10. Evaluating a pure expression to completion pushes its value on the value stack and
  changes nothing else: the environment, the store, the location ledger and the heap of the
  final state are those of the initial state. The evaluation always ends, in \<open>pure_steps e\<close>
  steps.
\<close>

theorem pure_run:
  "pure e \<Longrightarrow> drive DecAut_eval (pure_steps e) (s\<lparr>cnt := [CExp e]\<rparr>)
                = Some (Inr (s\<lparr>cnt := [], val := VNum (pure_val e) # val s\<rparr>))"
proof (induction e arbitrary: s)
  case (Num x)
  then show ?case
    by (simp add: emptyCnt_def DecAut_defs CmdAut_defs ExpAut_defs)
next
  case (Sum_e e1 e2)
  then have p: "pure e1" "pure e2" by simp_all
  show ?case
    unfolding pure_steps.simps pure_val.simps
    by (rule pure_bin_run [where k = ExpKW_SUM and f = py_add,
          OF _ _ Sum_e.IH(1) [OF p(1)] Sum_e.IH(2) [OF p(2)]])
       (simp_all add: DecAut_defs CmdAut_defs ExpAut_defs)
next
  case (Sub e1 e2)
  then have p: "pure e1" "pure e2" by simp_all
  show ?case
    unfolding pure_steps.simps pure_val.simps
    by (rule pure_bin_run [where k = ExpKW_SUB and f = py_sub,
          OF _ _ Sub.IH(1) [OF p(1)] Sub.IH(2) [OF p(2)]])
       (simp_all add: DecAut_defs CmdAut_defs ExpAut_defs)
next
  case (Mul e1 e2)
  then have p: "pure e1" "pure e2" by simp_all
  show ?case
    unfolding pure_steps.simps pure_val.simps
    by (rule pure_bin_run [where k = ExpKW_MUL and f = py_mul,
          OF _ _ Mul.IH(1) [OF p(1)] Mul.IH(2) [OF p(2)]])
       (simp_all add: DecAut_defs CmdAut_defs ExpAut_defs)
next
  case (Eq e1 e2)
  then have p: "pure e1" "pure e2" by simp_all
  show ?case
    unfolding pure_steps.simps pure_val.simps
    by (rule pure_bin_run [where k = ExpKW_EQ and f = "\<lambda>a b. B (py_eq a b)",
          OF _ _ Eq.IH(1) [OF p(1)] Eq.IH(2) [OF p(2)]])
       (simp_all add: DecAut_defs CmdAut_defs ExpAut_defs)
next
  case (Not_e e)
  let ?s1 = "s\<lparr>cnt := [], val := VNum (pure_val e) # val s\<rparr>"
  have c: "drive DecAut_eval 1 (?s1\<lparr>cnt := [CKW ExpKW_NOT]\<rparr>)
             = Some (Inr (s\<lparr>cnt := [], val := VNum (B (\<not> truthy (pure_val e))) # val s\<rparr>))"
    by (simp add: emptyCnt_def DecAut_defs CmdAut_defs ExpAut_defs)
  have r: "drive DecAut_eval (pure_steps e) (s\<lparr>cnt := [CExp e]\<rparr>) = Some (Inr ?s1)"
    using Not_e by simp
  have b: "drive DecAut_eval (pure_steps e + 1) (s\<lparr>cnt := [CExp e, CKW ExpKW_NOT]\<rparr>)
             = Some (Inr (s\<lparr>cnt := [], val := VNum (B (\<not> truthy (pure_val e))) # val s\<rparr>))"
    using drive_cons [OF frame_ok_DecAut r c] by simp
  show ?case
    unfolding pure_steps.simps pure_val.simps
    by (rule drive_step [OF _ _ b]) (simp_all add: DecAut_defs CmdAut_defs ExpAut_defs)
qed simp_all

lemmas init_defs =
  Num_init_def Not_init_def Id_init_def Ref_init_def Cns_init_def Sum_init_def Sub_init_def
  Mul_init_def Eq_init_def Assign_init_def Loop_init_def CSeq_init_def Bind_init_def
  Blk_init_def DSeq_init_def

lemma init_fails_iff:
  "(Num_init x = Inl AssertionError) = (\<not> isFloat x)"
  "(Id_init x = Inl AssertionError) = (\<not> isStr x)"
  "(Not_init x = Inl AssertionError) = (\<not> isExp x)"
  "(Ref_init x = Inl AssertionError) = (\<not> isExp x)"
  "(Cns_init x = Inl AssertionError) = (\<not> isExp x)"
  by (cases x; simp add: init_defs)+

lemma init2_fails_iff:
  "(Sum_init x y = Inl AssertionError) = (\<not> (isExp x \<and> isExp y))"
  "(Sub_init x y = Inl AssertionError) = (\<not> (isExp x \<and> isExp y))"
  "(Mul_init x y = Inl AssertionError) = (\<not> (isExp x \<and> isExp y))"
  "(Eq_init x y = Inl AssertionError) = (\<not> (isExp x \<and> isExp y))"
  "(Loop_init x y = Inl AssertionError) = (\<not> (isBoolExpObj x \<and> isCmd y))"
  "(CSeq_init x y = Inl AssertionError) = (\<not> (isCmd x \<and> isCmd y))"
  "(Blk_init x y = Inl AssertionError) = (\<not> (isDec x \<and> isCmd y))"
  "(DSeq_init x y = Inl AssertionError) = (\<not> (isDec x \<and> isDec y))"
  by (cases x; cases y; simp add: init_defs)+

lemma init3_fails_iff:
  "(Assign_init x y = Inl AssertionError) = (\<not> (isId x \<and> isExp y))"
  "(Bind_init x y = Inl AssertionError) = (\<not> (isId x \<and> isExp y))"
  by (cases x; cases y; simp add: init_defs split: exp.splits)+

lemma init_built:
  "Assign_init x y = Inr c \<Longrightarrow> built_cmd c"
  "Loop_init x y = Inr c \<Longrightarrow> built_obj y \<Longrightarrow> built_cmd c"
  "CSeq_init x y = Inr c \<Longrightarrow> built_obj x \<Longrightarrow> built_obj y \<Longrightarrow> built_cmd c"
  "Blk_init x y = Inr c \<Longrightarrow> built_obj y \<Longrightarrow> built_cmd c"
  by (cases x; cases y; auto simp: init_defs split: if_splits exp.splits)+

lemma ExpAut_rule_no_assert: "ExpAut_rule e s \<noteq> Inl AssertionError"
  by (cases "(e, s)" rule: ExpAut_rule.cases;
      auto simp: ExpAut_defs split: list.splits val.splits)

lemma ExpAut_rule_built:
  "ExpAut_rule e s = Inr s' \<Longrightarrow> list_all built_val (val s) \<Longrightarrow> list_all built_ctl (cnt s)
     \<Longrightarrow> list_all built_val (val s') \<and> list_all built_ctl (cnt s')"
  by (cases "(e, s)" rule: ExpAut_rule.cases;
      auto simp: ExpAut_defs split: list.splits val.splits)

lemma ExpAut_eval_no_assert: "ExpAut_eval (pushCnt e s) \<noteq> Inl AssertionError"
  using ExpAut_rule_no_assert [of e s]
  by (auto simp: ExpAut_eval_def bindE_def popCnt_def pushCnt_def)

lemma ExpAut_eval_built:
  "ExpAut_eval (pushCnt e s) = Inr s' \<Longrightarrow> list_all built_val (val s)
     \<Longrightarrow> list_all built_ctl (cnt s)
     \<Longrightarrow> list_all built_val (val s') \<and> list_all built_ctl (cnt s')"
  using ExpAut_rule_built [of e s s']
  by (auto simp: ExpAut_eval_def bindE_def popCnt_def pushCnt_def)

lemma term_of_val_no_assert [simp]: "term_of_val v \<noteq> Inl AssertionError"
  by (cases v) simp_all

lemma term_of_val_built: "term_of_val v = Inr c \<Longrightarrow> built_val v \<Longrightarrow> built_ctl c"
  by (cases v) auto

lemma CmdAut_rule_no_assert:
  "built_ctl e \<Longrightarrow> CmdAut_rule e s \<noteq> Inl AssertionError"
  using ExpAut_eval_no_assert [of e s]
  by (cases "(e, s)" rule: CmdAut_rule.cases;
      auto simp: bindE_def popVal_def pushVal_def pushCnt_def CmdAut_defs
           split: list.splits val.splits option.splits sum.splits if_splits)

lemma CmdAut_rule_built:
  "built_ctl e \<Longrightarrow> CmdAut_rule e s = Inr s' \<Longrightarrow> list_all built_val (val s)
     \<Longrightarrow> list_all built_ctl (cnt s)
     \<Longrightarrow> list_all built_val (val s') \<and> list_all built_ctl (cnt s')"
  using ExpAut_eval_built [of e s s']
  by (cases "(e, s)" rule: CmdAut_rule.cases;
      auto simp: bindE_def popVal_def pushVal_def pushCnt_def CmdAut_defs
           dest: term_of_val_built
           split: list.splits val.splits option.splits sum.splits if_splits)

lemma CmdAut_eval_no_assert:
  "built_ctl e \<Longrightarrow> CmdAut_eval (pushCnt e s) \<noteq> Inl AssertionError"
  using CmdAut_rule_no_assert [of e s]
  by (auto simp: CmdAut_eval_def bindE_def popCnt_def pushCnt_def)

lemma CmdAut_eval_built:
  "built_ctl e \<Longrightarrow> CmdAut_eval (pushCnt e s) = Inr s' \<Longrightarrow> list_all built_val (val s)
     \<Longrightarrow> list_all built_ctl (cnt s)
     \<Longrightarrow> list_all built_val (val s') \<and> list_all built_ctl (cnt s')"
  using CmdAut_rule_built [of e s s']
  by (auto simp: CmdAut_eval_def bindE_def popCnt_def pushCnt_def)

lemma DecAut_rule_no_assert:
  "built_ctl e \<Longrightarrow> DecAut_rule e s \<noteq> Inl AssertionError"
  using CmdAut_eval_no_assert [of e s]
  by (cases "(e, s)" rule: DecAut_rule.cases;
      auto simp: bindE_def popVal_def pushVal_def pushCnt_def updateStore_def DecAut_defs Let_def
           split: list.splits val.splits option.splits sum.splits if_splits exp.splits)

lemma DecAut_rule_built:
  "built_ctl e \<Longrightarrow> DecAut_rule e s = Inr s' \<Longrightarrow> list_all built_val (val s)
     \<Longrightarrow> list_all built_ctl (cnt s)
     \<Longrightarrow> list_all built_val (val s') \<and> list_all built_ctl (cnt s')"
  using CmdAut_eval_built [of e s s']
  by (cases "(e, s)" rule: DecAut_rule.cases;
      auto simp: bindE_def popVal_def pushVal_def pushCnt_def updateStore_def DecAut_defs Let_def
           dest: term_of_val_built
           split: list.splits val.splits option.splits sum.splits if_splits exp.splits)

lemma DecAut_eval_no_assert:
  "built_state s \<Longrightarrow> DecAut_eval s \<noteq> Inl AssertionError"
  using DecAut_rule_no_assert [of "hd (cnt s)" "s\<lparr>cnt := tl (cnt s)\<rparr>"]
  by (cases "cnt s") (auto simp: built_state_def DecAut_eval_def bindE_def popCnt_def)

lemma DecAut_eval_built:
  "built_state s \<Longrightarrow> DecAut_eval s = Inr s' \<Longrightarrow> built_state s'"
  using DecAut_rule_built [of "hd (cnt s)" "s\<lparr>cnt := tl (cnt s)\<rparr>" s']
  by (cases "cnt s") (auto simp: built_state_def DecAut_eval_def bindE_def popCnt_def)

lemma drive_no_assert:
  "built_state s \<Longrightarrow> drive DecAut_eval n s \<noteq> Some (Inl AssertionError)"
proof (induction n arbitrary: s)
  case 0
  then show ?case by simp
next
  case (Suc n)
  then show ?case
    using DecAut_eval_no_assert [of s] DecAut_eval_built [of s]
    by (cases "DecAut_eval s") (auto split: if_splits)
qed

lemmas all_defs = ExpAut_defs CmdAut_defs DecAut_defs


theorem cseq_composition_witness:
  "cnt \<lparr>val = [], cnt = [], env = [(''x'', F 0)], sto = [(F 0, F 1)], locs = 0, heap = [[]]\<rparr> = []
   \<and> runs_to DecAut_eval
        (pushCnt (CCmd (CSeq (Assign ''x'' (Num 5)) (Assign ''x'' (Sum_e (Id_e ''x'') (Num 1)))))
           \<lparr>val = [], cnt = [], env = [(''x'', F 0)], sto = [(F 0, F 1)], locs = 0, heap = [[]]\<rparr>)
        \<lparr>val = [], cnt = [], env = [(''x'', F 0)], sto = [(F 0, F 6)], locs = 0, heap = [[]]\<rparr>"
proof -
  let ?s = "\<lparr>val = [], cnt = [], env = [(''x'', F 0)], sto = [(F 0, F 1)], locs = 0, heap = [[]]\<rparr>"
  let ?s1 = "\<lparr>val = [], cnt = [], env = [(''x'', F 0)], sto = [(F 0, F 5)], locs = 0, heap = [[]]\<rparr>"
  let ?s2 = "\<lparr>val = [], cnt = [], env = [(''x'', F 0)], sto = [(F 0, F 6)], locs = 0, heap = [[]]\<rparr>"
  have h: "cnt ?s = []" by simp
  have "drive DecAut_eval 3 (pushCnt (CCmd (Assign ''x'' (Num 5))) ?s) = Some (Inr ?s1)"
    by (simp add: eval_nat_numeral all_defs py_eq_def)
  then have r1: "runs_to DecAut_eval (pushCnt (CCmd (Assign ''x'' (Num 5))) ?s) ?s1"
    unfolding runs_to_def by blast
  have "drive DecAut_eval 6 (pushCnt (CCmd (Assign ''x'' (Sum_e (Id_e ''x'') (Num 1)))) ?s1)
          = Some (Inr ?s2)"
    by (simp add: eval_nat_numeral all_defs py_eq_def py_add_def)
  then have r2: "runs_to DecAut_eval
      (pushCnt (CCmd (Assign ''x'' (Sum_e (Id_e ''x'') (Num 1)))) ?s1) ?s2"
    unfolding runs_to_def by blast
  from cseq_composition [OF h, of "Assign ''x'' (Num 5)"
      "Assign ''x'' (Sum_e (Id_e ''x'') (Num 1))" ?s2] r1 r2 h
  show ?thesis by blast
qed

theorem pure_run_witness:
  "pure (Sub (Num 5) (Mul (Num 2) (Num 3)))
   \<and> drive DecAut_eval 7
        (\<lparr>val = [VStr ''x''], cnt = [], env = [(''x'', F 0)], sto = [(F 0, F 1)], locs = 0,
           heap = [[F 0]]\<rparr>\<lparr>cnt := [CExp (Sub (Num 5) (Mul (Num 2) (Num 3)))]\<rparr>)
     = Some (Inr (\<lparr>val = [VStr ''x''], cnt = [], env = [(''x'', F 0)], sto = [(F 0, F 1)],
                    locs = 0, heap = [[F 0]]\<rparr>\<lparr>cnt := [], val := [VNum (F (- 1)), VStr ''x'']\<rparr>))"
proof -
  have p: "pure (Sub (Num 5) (Mul (Num 2) (Num 3)))" by simp
  have n: "pure_steps (Sub (Num 5) (Mul (Num 2) (Num 3))) = 7" by simp
  have v: "pure_val (Sub (Num 5) (Mul (Num 2) (Num 3))) = F (- 1)"
    by (simp add: py_sub_def py_mul_def)
  have w: "val \<lparr>val = [VStr ''x''], cnt = [], env = [(''x'', F 0)], sto = [(F 0, F 1)],
                 locs = 0, heap = [[F 0]]\<rparr> = [VStr ''x'']" by simp
  from pure_run [OF p, of "\<lparr>val = [VStr ''x''], cnt = [], env = [(''x'', F 0)],
      sto = [(F 0, F 1)], locs = 0, heap = [[F 0]]\<rparr>"]
  show ?thesis unfolding n v w using p by blast
qed

section \<open>No rule for \<open>Cns\<close>\<close>

text \<open>
  C9. \<open>Cns(e)\<close> is constructed for every expression \<open>e\<close>. No layer has a rule for it: the
  declaration layer pushes it back and calls the command layer, which pushes it back and calls
  the expression layer, which raises \<open>IllFormed\<close>. So a step of a machine whose control stack
  has a \<open>Cns\<close> term on top raises \<open>IllFormed\<close>, and so does driving that machine.
\<close>

theorem cns_ill_formed:
  "Cns_init (PExp e) = Inr (Cns e)
   \<and> DecAut_rule (CExp (Cns e)) s = CmdAut_eval (pushCnt (CExp (Cns e)) s)
   \<and> CmdAut_rule (CExp (Cns e)) s = ExpAut_eval (pushCnt (CExp (Cns e)) s)
   \<and> ExpAut_rule (CExp (Cns e)) s = Inl (IllFormed (CExp (Cns e)))
   \<and> DecAut_eval (s\<lparr>cnt := CExp (Cns e) # C\<rparr>) = Inl (IllFormed (CExp (Cns e)))
   \<and> drive DecAut_eval (Suc n) (s\<lparr>cnt := CExp (Cns e) # C\<rparr>)
       = Some (Inl (IllFormed (CExp (Cns e))))"
  by (simp add: Cns_init_def all_defs)

section \<open>Malformed terms fail at construction\<close>

text \<open>
  C8. A constructor raises \<open>AssertionError\<close> (the condition the specification calls
  \<open>MalformedTerm\<close>) exactly when an operand is not of the class its position requires, for
  instance \<open>Mul\<close> with an operand that is not an expression; it raises at construction, so no
  term with such an operand exists. The commands that the constructors return are built, and
  on a state whose commands are built the machine never raises \<open>AssertionError\<close>, neither in
  a step nor in a run, and its next state is built again.
\<close>

theorem malformed_construction:
  assumes "built_state s"
  shows "(Num_init x = Inl AssertionError) = (\<not> isFloat x)
   \<and> (Id_init x = Inl AssertionError) = (\<not> isStr x)
   \<and> (Sum_init x y = Inl AssertionError) = (\<not> (isExp x \<and> isExp y))
   \<and> (Sub_init x y = Inl AssertionError) = (\<not> (isExp x \<and> isExp y))
   \<and> (Mul_init x y = Inl AssertionError) = (\<not> (isExp x \<and> isExp y))
   \<and> (Eq_init x y = Inl AssertionError) = (\<not> (isExp x \<and> isExp y))
   \<and> (Not_init x = Inl AssertionError) = (\<not> isExp x)
   \<and> (Assign_init x y = Inl AssertionError) = (\<not> (isId x \<and> isExp y))
   \<and> (Loop_init x y = Inl AssertionError) = (\<not> (isBoolExpObj x \<and> isCmd y))
   \<and> (CSeq_init x y = Inl AssertionError) = (\<not> (isCmd x \<and> isCmd y))
   \<and> (Bind_init x y = Inl AssertionError) = (\<not> (isId x \<and> isExp y))
   \<and> (Ref_init x = Inl AssertionError) = (\<not> isExp x)
   \<and> (Cns_init x = Inl AssertionError) = (\<not> isExp x)
   \<and> (Blk_init x y = Inl AssertionError) = (\<not> (isDec x \<and> isCmd y))
   \<and> (DSeq_init x y = Inl AssertionError) = (\<not> (isDec x \<and> isDec y))
   \<and> (Assign_init x y = Inr c \<longrightarrow> built_cmd c)
   \<and> (Loop_init x y = Inr c \<and> built_obj y \<longrightarrow> built_cmd c)
   \<and> (CSeq_init x y = Inr c \<and> built_obj x \<and> built_obj y \<longrightarrow> built_cmd c)
   \<and> (Blk_init x y = Inr c \<and> built_obj y \<longrightarrow> built_cmd c)
   \<and> DecAut_eval s \<noteq> Inl AssertionError
   \<and> (DecAut_eval s = Inr s' \<longrightarrow> built_state s')
   \<and> drive DecAut_eval n s \<noteq> Some (Inl AssertionError)"
proof -
  have a: "(Assign_init x y = Inr c \<longrightarrow> built_cmd c)
      \<and> (Loop_init x y = Inr c \<and> built_obj y \<longrightarrow> built_cmd c)
      \<and> (CSeq_init x y = Inr c \<and> built_obj x \<and> built_obj y \<longrightarrow> built_cmd c)
      \<and> (Blk_init x y = Inr c \<and> built_obj y \<longrightarrow> built_cmd c)"
    using init_built [of x y c] by blast
  have b: "DecAut_eval s \<noteq> Inl AssertionError \<and> (DecAut_eval s = Inr s' \<longrightarrow> built_state s')
      \<and> drive DecAut_eval n s \<noteq> Some (Inl AssertionError)"
    using assms DecAut_eval_no_assert [of s] DecAut_eval_built [of s s'] drive_no_assert [of s n]
    by blast
  show ?thesis
    unfolding init_fails_iff init2_fails_iff init3_fails_iff using a b by simp
qed

theorem malformed_construction_witness:
  "built_state (pushCnt (CCmd fac_blk) DecAut_init)
   \<and> Mul_init (PFloat 2) (PFloat 1) = Inl AssertionError
   \<and> Loop_init (PExp (Id_e ''b'')) (PCmd fac) = Inl AssertionError
   \<and> DecAut_eval (pushCnt (CCmd fac_blk) DecAut_init) \<noteq> Inl AssertionError
   \<and> drive DecAut_eval 65 (pushCnt (CCmd fac_blk) DecAut_init) \<noteq> Some (Inl AssertionError)"
proof -
  have b: "built_state (pushCnt (CCmd fac_blk) DecAut_init)"
    by (simp add: built_state_def pushCnt_def DecAut_init_def fac_blk_def fac_def)
  have m: "\<not> (isExp (PFloat 2) \<and> isExp (PFloat 1))" by simp
  have l: "\<not> (isBoolExpObj (PExp (Id_e ''b'')) \<and> isCmd (PCmd fac))" by simp
  from malformed_construction [OF b, where x = "PFloat 2" and y = "PFloat 1" and n = 65]
  have 1: "Mul_init (PFloat 2) (PFloat 1) = Inl AssertionError
      \<and> DecAut_eval (pushCnt (CCmd fac_blk) DecAut_init) \<noteq> Inl AssertionError
      \<and> drive DecAut_eval 65 (pushCnt (CCmd fac_blk) DecAut_init) \<noteq> Some (Inl AssertionError)"
    using m by simp
  from malformed_construction [OF b, where x = "PExp (Id_e ''b'')" and y = "PCmd fac"]
  have 2: "Loop_init (PExp (Id_e ''b'')) (PCmd fac) = Inl AssertionError"
    using l by simp
  from b 1 2 show ?thesis by simp
qed

section \<open>The factorial example\<close>

lemmas py_defs = py_add_def py_sub_def py_mul_def py_eq_def truthy_def in_list_def newLoc_def

lemmas fac_defs = fac_blk_def fac_def dec_def DecAut_init_def

text \<open>
  C3, as stated, fails: driven to an empty control stack, the machine ends with an empty
  store, so the store maps the location of \<open>x\<close> to nothing. The last step, \<open>BLKCMD\<close>,
  removes the two locations of the block from the store and restores the empty environment.
\<close>

theorem fac_final_store_empty:
  "drive DecAut_eval 65 (pushCnt (CCmd fac_blk) DecAut_init)
     = Some (Inr \<lparr>val = [], cnt = [], env = [], sto = [], locs = 1, heap = [[F 0, F 1], []]\<rparr>)
   \<and> sto_get (sto \<lparr>val = [], cnt = [], env = [], sto = [], locs = 1,
                    heap = [[F 0, F 1], []]\<rparr>) (F 0) \<noteq> Some (F 2)
   \<and> sto_get (sto \<lparr>val = [], cnt = [], env = [], sto = [], locs = 1,
                    heap = [[F 0, F 1], []]\<rparr>) (F 1) \<noteq> Some (F 0)"
  by (simp add: eval_nat_numeral fac_defs all_defs py_defs Let_def)

text \<open>
  C3, amended. After 64 steps the loop has ended and only the marker \<open>BLKCMD\<close> is left on
  the control stack: the environment binds \<open>x\<close> to the location 0.0 and \<open>y\<close> to the location
  1.0, and the store maps the location of \<open>x\<close> to 2.0 and the location of \<open>y\<close> to 0.0. The
  next step is the last one: it empties the control stack, and the store.
\<close>

theorem fac_store_before_block_exit:
  "steps DecAut_eval 64 (pushCnt (CCmd fac_blk) DecAut_init)
     = Inr \<lparr>val = [VDict [], VList 0, VList 1], cnt = [CKW DecCmdKW_BLKCMD],
             env = [(''x'', F 0), (''y'', F 1)], sto = [(F 0, F 2), (F 1, F 0)],
             locs = 0, heap = [[F 0, F 1], []]\<rparr>
   \<and> map_of [(''x'', F 0), (''y'', F 1)] ''x'' = Some (F 0)
   \<and> map_of [(''x'', F 0), (''y'', F 1)] ''y'' = Some (F 1)
   \<and> sto_get [(F 0, F 2), (F 1, F 0)] (F 0) = Some (F 2)
   \<and> sto_get [(F 0, F 2), (F 1, F 0)] (F 1) = Some (F 0)
   \<and> DecAut_eval \<lparr>val = [VDict [], VList 0, VList 1], cnt = [CKW DecCmdKW_BLKCMD],
             env = [(''x'', F 0), (''y'', F 1)], sto = [(F 0, F 2), (F 1, F 0)],
             locs = 0, heap = [[F 0, F 1], []]\<rparr>
     = Inr \<lparr>val = [], cnt = [], env = [], sto = [], locs = 1, heap = [[F 0, F 1], []]\<rparr>"
  by (simp add: eval_nat_numeral fac_defs all_defs py_defs Let_def)

section \<open>The loop that counts down\<close>

lemma py_eq_refl [simp]: "py_eq a a"
  by (simp add: py_eq_def)

lemma sto_get_set_same [simp]: "sto_get (sto_set st l v) l = Some v"
  by (induction st) auto

text \<open>
  C6. In a machine whose environment binds \<open>y\<close> to a location \<open>l\<close> that stores 2.0, the loop
  \<open>Loop(Not(Eq(Id("y"), Num(0.0))), body)\<close> with the body \<open>y := y - 1.0\<close> ends, after 36
  steps, in the initial state with the store updated at \<open>l\<close> twice; the body is executed
  exactly twice and \<open>l\<close> stores 0.0. And when the value the marker \<open>LOOP\<close> pops is false, the
  step discards the two saved entries below it and pushes nothing: the body is not put on
  the control stack and no value is left.
\<close>

theorem loop_counts_down:
  assumes "map_of (env s) ''y'' = Some l" and "sto_get (sto s) l = Some (F 2)"
  shows "drive DecAut_eval 36
          (s\<lparr>cnt := [CCmd (Loop (Not_e (Eq (Id_e ''y'') (Num 0)))
                           (Assign ''y'' (Sub (Id_e ''y'') (Num 1))))]\<rparr>)
        = Some (Inr (s\<lparr>cnt := [], sto := sto_set (sto_set (sto s) l (F 1)) l (F 0)\<rparr>))
     \<and> sto_get (sto_set (sto_set (sto s) l (F 1)) l (F 0)) l = Some (F 0)
     \<and> on_top_count (CCmd (Assign ''y'' (Sub (Id_e ''y'') (Num 1)))) 36
          (s\<lparr>cnt := [CCmd (Loop (Not_e (Eq (Id_e ''y'') (Num 0)))
                           (Assign ''y'' (Sub (Id_e ''y'') (Num 1))))]\<rparr>) = 2
     \<and> (\<not> truthy t \<longrightarrow>
          DecAut_eval (s\<lparr>cnt := CKW CmdKW_LOOP # C, val := VNum t # b # lo # V\<rparr>)
            = Inr (s\<lparr>cnt := C, val := V\<rparr>))"
  using assms
  by (simp add: eval_nat_numeral all_defs py_defs)

theorem loop_counts_down_witness:
  "map_of (env \<lparr>val = [], cnt = [], env = [(''y'', F 7)], sto = [(F 7, F 2)], locs = 0,
                 heap = [[]]\<rparr>) ''y'' = Some (F 7)
   \<and> sto_get (sto \<lparr>val = [], cnt = [], env = [(''y'', F 7)], sto = [(F 7, F 2)], locs = 0,
                    heap = [[]]\<rparr>) (F 7) = Some (F 2)
   \<and> drive DecAut_eval 36
        (\<lparr>val = [], cnt = [], env = [(''y'', F 7)], sto = [(F 7, F 2)], locs = 0, heap = [[]]\<rparr>
           \<lparr>cnt := [CCmd (Loop (Not_e (Eq (Id_e ''y'') (Num 0)))
                           (Assign ''y'' (Sub (Id_e ''y'') (Num 1))))]\<rparr>)
      = Some (Inr \<lparr>val = [], cnt = [], env = [(''y'', F 7)], sto = [(F 7, F 0)], locs = 0,
                    heap = [[]]\<rparr>)
   \<and> on_top_count (CCmd (Assign ''y'' (Sub (Id_e ''y'') (Num 1)))) 36
        (\<lparr>val = [], cnt = [], env = [(''y'', F 7)], sto = [(F 7, F 2)], locs = 0, heap = [[]]\<rparr>
           \<lparr>cnt := [CCmd (Loop (Not_e (Eq (Id_e ''y'') (Num 0)))
                           (Assign ''y'' (Sub (Id_e ''y'') (Num 1))))]\<rparr>) = 2"
proof -
  let ?s = "\<lparr>val = [], cnt = [], env = [(''y'', F 7)], sto = [(F 7, F 2)], locs = 0,
             heap = [[]]\<rparr>"
  have a: "map_of (env ?s) ''y'' = Some (F 7)" by simp
  have b: "sto_get (sto ?s) (F 7) = Some (F 2)" by simp
  have c: "?s\<lparr>cnt := [], sto := sto_set (sto_set (sto ?s) (F 7) (F 1)) (F 7) (F 0)\<rparr>
      = \<lparr>val = [], cnt = [], env = [(''y'', F 7)], sto = [(F 7, F 0)], locs = 0, heap = [[]]\<rparr>"
    by simp
  from loop_counts_down [OF a b] show ?thesis
    unfolding c using a b by blast
qed

section \<open>Fresh locations\<close>















section \<open>What the run of a term leaves behind\<close>

lemma drive_first:
  assumes "cnt s \<noteq> []" and "drive ev n s = Some (Inr s')"
  shows "\<exists>k s1. n = Suc k \<and> ev s = Inr s1 \<and> drive ev k s1 = Some (Inr s')"
proof (cases n)
  case 0
  with assms show ?thesis by (simp add: emptyCnt_def)
next
  case (Suc k)
  with assms show ?thesis by (cases "ev s") (auto simp: emptyCnt_def)
qed

lemma drive_empty: "cnt s = [] \<Longrightarrow> drive ev n s = Some (Inr s') \<Longrightarrow> s' = s"
  by (cases n) (auto simp: emptyCnt_def)

lemma drive_single:
  assumes "drive ev n s = Some (Inr s')" and "cnt s \<noteq> []" and "ev s = Inr s1" and "cnt s1 = []"
  shows "s' = s1"
proof -
  from drive_first [OF assms(2) assms(1)] assms(3) obtain k where
    "drive ev k s1 = Some (Inr s')" by auto
  from drive_empty [OF assms(4) this] show ?thesis .
qed

lemma heap_appends_refl: "heap_appends s s"
  by (simp add: heap_appends_def)

lemma heap_appends_trans:
  "heap_appends s s1 \<Longrightarrow> heap_appends s1 s2 \<Longrightarrow> heap_appends s s2"
  unfolding heap_appends_def by auto

lemma heap_appends_fields:
  "locs t = locs s \<Longrightarrow> heap t = heap s \<Longrightarrow> locs t' = locs s' \<Longrightarrow> heap t' = heap s'
   \<Longrightarrow> heap_appends s s' \<Longrightarrow> heap_appends t t'"
  by (simp add: heap_appends_def)

lemma heap_keeps_fields:
  "locs t = locs s \<Longrightarrow> heap t = heap s \<Longrightarrow> locs t' = locs s' \<Longrightarrow> heap t' = heap s'
   \<Longrightarrow> heap_keeps s s' \<Longrightarrow> heap_keeps t t'"
  by (simp add: heap_keeps_def)

lemma heap_appends_keeps:
  "heap_appends s s' \<Longrightarrow> locs s < length (heap s) \<Longrightarrow> heap_keeps s s'"
  unfolding heap_appends_def heap_keeps_def by auto

lemma heap_keeps_refl: "locs s < length (heap s) \<Longrightarrow> heap_keeps s s"
  by (simp add: heap_keeps_def)

lemma heap_keeps_valid: "heap_keeps s s' \<Longrightarrow> locs s' < length (heap s')"
  by (simp add: heap_keeps_def)

lemma heap_keeps_trans:
  assumes "heap_keeps s s1" and "heap_keeps s1 s2" and "locs s < length (heap s)"
  shows "heap_keeps s s2"
proof -
  from assms(1) obtain g1 where
    l1: "length (heap s) \<le> length (heap s1)" and
    c1: "locs s1 = locs s \<or> length (heap s) \<le> locs s1" and
    k1: "\<And>a. a < length (heap s) \<Longrightarrow> a \<noteq> locs s \<Longrightarrow> heap s1 ! a = heap s ! a" and
    g1: "heap s1 ! locs s = heap s ! locs s @ g1"
    unfolding heap_keeps_def by blast
  from assms(2) obtain g2 where
    l2: "length (heap s1) \<le> length (heap s2)" and
    v2: "locs s2 < length (heap s2)" and
    c2: "locs s2 = locs s1 \<or> length (heap s1) \<le> locs s2" and
    k2: "\<And>a. a < length (heap s1) \<Longrightarrow> a \<noteq> locs s1 \<Longrightarrow> heap s2 ! a = heap s1 ! a" and
    g2: "heap s2 ! locs s1 = heap s1 ! locs s1 @ g2"
    unfolding heap_keeps_def by blast
  have a: "length (heap s) \<le> length (heap s2)" using l1 l2 by simp
  have b: "locs s2 = locs s \<or> length (heap s) \<le> locs s2" using c1 c2 l1 by auto
  have c: "\<And>a. a < length (heap s) \<Longrightarrow> a \<noteq> locs s \<Longrightarrow> heap s2 ! a = heap s ! a"
  proof -
    fix a assume a: "a < length (heap s)" "a \<noteq> locs s"
    then have "a \<noteq> locs s1" using c1 by auto
    with a l1 k2 [of a] k1 [of a] show "heap s2 ! a = heap s ! a" by simp
  qed
  have d: "\<exists>g. heap s2 ! locs s = heap s ! locs s @ g"
  proof (cases "locs s1 = locs s")
    case True
    with g1 g2 show ?thesis by simp
  next
    case False
    with c1 assms(3) have "locs s \<noteq> locs s1" "locs s < length (heap s1)" using l1 by auto
    with k2 [of "locs s"] g1 show ?thesis by simp
  qed
  from a v2 b c d show ?thesis unfolding heap_keeps_def by blast
qed

lemma heap_appends_upd [simp]:
  "heap_appends (s\<lparr>cnt := X\<rparr>) t = heap_appends s t"
  "heap_appends s (t\<lparr>cnt := X\<rparr>) = heap_appends s t"
  "heap_appends (s\<lparr>val := Y\<rparr>) t = heap_appends s t"
  "heap_appends s (t\<lparr>val := Y\<rparr>) = heap_appends s t"
  "heap_appends (s\<lparr>sto := Z\<rparr>) t = heap_appends s t"
  "heap_appends s (t\<lparr>sto := Z\<rparr>) = heap_appends s t"
  "heap_appends (s\<lparr>env := W\<rparr>) t = heap_appends s t"
  "heap_appends s (t\<lparr>env := W\<rparr>) = heap_appends s t"
  by (simp_all add: heap_appends_def)

lemma heap_keeps_upd [simp]:
  "heap_keeps (s\<lparr>cnt := X\<rparr>) t = heap_keeps s t"
  "heap_keeps s (t\<lparr>cnt := X\<rparr>) = heap_keeps s t"
  "heap_keeps (s\<lparr>val := Y\<rparr>) t = heap_keeps s t"
  "heap_keeps s (t\<lparr>val := Y\<rparr>) = heap_keeps s t"
  "heap_keeps (s\<lparr>sto := Z\<rparr>) t = heap_keeps s t"
  "heap_keeps s (t\<lparr>sto := Z\<rparr>) = heap_keeps s t"
  "heap_keeps (s\<lparr>env := W\<rparr>) t = heap_keeps s t"
  "heap_keeps s (t\<lparr>env := W\<rparr>) = heap_keeps s t"
  by (simp_all add: heap_keeps_def)

lemma bin_run:
  assumes step: "DecAut_eval (s\<lparr>cnt := [CExp e]\<rparr>) = Inr (s\<lparr>cnt := [CExp e2, CExp e1, CKW k]\<rparr>)"
    and comb: "\<And>(t :: DecAut) a b V. val t = VNum a # VNum b # V \<Longrightarrow>
                 DecAut_eval (t\<lparr>cnt := [CKW k]\<rparr>) = Inr (t\<lparr>cnt := [], val := VNum (f a b) # V\<rparr>)"
    and IH1: "\<And>n s s'. drive DecAut_eval n (s\<lparr>cnt := [CExp e1]\<rparr>) = Some (Inr s')
                 \<Longrightarrow> exp_post s s'"
    and IH2: "\<And>n s s'. drive DecAut_eval n (s\<lparr>cnt := [CExp e2]\<rparr>) = Some (Inr s')
                 \<Longrightarrow> exp_post s s'"
    and run: "drive DecAut_eval n (s\<lparr>cnt := [CExp e]\<rparr>) = Some (Inr s')"
  shows "exp_post s s'"
proof -
  from drive_first [OF _ run] step obtain k0 where
    r0: "drive DecAut_eval k0 (s\<lparr>cnt := CExp e2 # [CExp e1, CKW k]\<rparr>) = Some (Inr s')"
    by auto
  from drive_cons_split [OF frame_ok_DecAut r0] obtain n2 m2 s2 where
    a: "drive DecAut_eval n2 (s\<lparr>cnt := [CExp e2]\<rparr>) = Some (Inr s2)" and
    r1: "drive DecAut_eval m2 (s2\<lparr>cnt := CExp e1 # [CKW k]\<rparr>) = Some (Inr s')" by blast
  from drive_cons_split [OF frame_ok_DecAut r1] obtain n1 m1 s3 where
    b: "drive DecAut_eval n1 (s2\<lparr>cnt := [CExp e1]\<rparr>) = Some (Inr s3)" and
    r2: "drive DecAut_eval m1 (s3\<lparr>cnt := [CKW k]\<rparr>) = Some (Inr s')" by blast
  from IH2 [OF a] obtain v2 where
    p2: "val s2 = VNum v2 # val s" "env s2 = env s" "heap_appends s s2"
    unfolding exp_post_def by blast
  from IH1 [OF b] obtain v1 where
    p1: "val s3 = VNum v1 # val s2" "env s3 = env s2" "heap_appends s2 s3"
    unfolding exp_post_def by blast
  have v3: "val s3 = VNum v1 # VNum v2 # val s" using p1 p2 by simp
  from drive_single [OF r2 _ comb [OF v3]]
  have e: "s' = s3\<lparr>cnt := [], val := VNum (f v1 v2) # val s\<rparr>" by simp
  show ?thesis
    unfolding exp_post_def e
    using p1 p2 heap_appends_trans [OF p2(3) p1(3)] by simp
qed

lemma exp_run:
  "drive DecAut_eval n (s\<lparr>cnt := [CExp e]\<rparr>) = Some (Inr s') \<Longrightarrow> exp_post s s'"
proof (induction e arbitrary: n s s')
  case (Num x)
  have "DecAut_eval (s\<lparr>cnt := [CExp (Num x)]\<rparr>) = Inr (s\<lparr>cnt := [], val := VNum (F x) # val s\<rparr>)"
    by (simp add: all_defs)
  from drive_single [OF Num _ this] show ?case
    by (simp add: exp_post_def heap_appends_refl)
next
  case (Sum_e e1 e2)
  show ?case
    by (rule bin_run [where k = ExpKW_SUM and f = py_add, OF _ _ _ _ Sum_e.prems];
        (erule Sum_e.IH | simp add: all_defs))
next
  case (Sub e1 e2)
  show ?case
    by (rule bin_run [where k = ExpKW_SUB and f = py_sub, OF _ _ _ _ Sub.prems];
        (erule Sub.IH | simp add: all_defs))
next
  case (Mul e1 e2)
  show ?case
    by (rule bin_run [where k = ExpKW_MUL and f = py_mul, OF _ _ _ _ Mul.prems];
        (erule Mul.IH | simp add: all_defs))
next
  case (Eq e1 e2)
  show ?case
    by (rule bin_run [where k = ExpKW_EQ and f = "\<lambda>a b. B (py_eq a b)",
          OF _ _ _ _ Eq.prems];
        (erule Eq.IH | simp add: all_defs))
next
  case (Not_e e)
  have step: "DecAut_eval (s\<lparr>cnt := [CExp (Not_e e)]\<rparr>) = Inr (s\<lparr>cnt := [CExp e, CKW ExpKW_NOT]\<rparr>)"
    by (simp add: all_defs)
  from drive_first [OF _ Not_e.prems] step obtain k0 where
    r0: "drive DecAut_eval k0 (s\<lparr>cnt := CExp e # [CKW ExpKW_NOT]\<rparr>) = Some (Inr s')" by auto
  from drive_cons_split [OF frame_ok_DecAut r0] obtain n1 m1 s1 where
    a: "drive DecAut_eval n1 (s\<lparr>cnt := [CExp e]\<rparr>) = Some (Inr s1)" and
    r1: "drive DecAut_eval m1 (s1\<lparr>cnt := [CKW ExpKW_NOT]\<rparr>) = Some (Inr s')" by blast
  from Not_e.IH [OF a] obtain v where
    p: "val s1 = VNum v # val s" "env s1 = env s" "heap_appends s s1"
    unfolding exp_post_def by blast
  have "DecAut_eval (s1\<lparr>cnt := [CKW ExpKW_NOT]\<rparr>)
      = Inr (s1\<lparr>cnt := [], val := VNum (B (\<not> truthy v)) # val s\<rparr>)"
    using p(1) by (simp add: all_defs)
  from drive_single [OF r1 _ this] have e: "s' = s1\<lparr>cnt := [], val := VNum (B (\<not> truthy v)) # val s\<rparr>"
    by simp
  show ?case unfolding exp_post_def e using p by simp
next
  case (Id_e i)
  from drive_first [OF _ Id_e] obtain k0 s1 where
    st: "DecAut_eval (s\<lparr>cnt := [CExp (Id_e i)]\<rparr>) = Inr s1" and
    r: "drive DecAut_eval k0 s1 = Some (Inr s')" by auto
  from st obtain v where s1: "s1 = s\<lparr>cnt := [], val := VNum v # val s\<rparr>"
    by (auto simp: all_defs split: option.splits)
  from drive_empty [OF _ r] s1 have "s' = s\<lparr>cnt := [], val := VNum v # val s\<rparr>" by simp
  then show ?case by (simp add: exp_post_def heap_appends_refl)
next
  case (Ref e)
  have step: "DecAut_eval (s\<lparr>cnt := [CExp (Ref e)]\<rparr>) = Inr (s\<lparr>cnt := [CExp e, CKW DecExpKW_REF]\<rparr>)"
    by (simp add: all_defs)
  from drive_first [OF _ Ref.prems] step obtain k0 where
    r0: "drive DecAut_eval k0 (s\<lparr>cnt := CExp e # [CKW DecExpKW_REF]\<rparr>) = Some (Inr s')" by auto
  from drive_cons_split [OF frame_ok_DecAut r0] obtain n1 m1 s1 where
    a: "drive DecAut_eval n1 (s\<lparr>cnt := [CExp e]\<rparr>) = Some (Inr s1)" and
    r1: "drive DecAut_eval m1 (s1\<lparr>cnt := [CKW DecExpKW_REF]\<rparr>) = Some (Inr s')" by blast
  from Ref.IH [OF a] obtain v where
    p: "val s1 = VNum v # val s" "env s1 = env s" "heap_appends s s1"
    unfolding exp_post_def by blast
  from drive_first [OF _ r1] obtain k1 s2 where
    st: "DecAut_eval (s1\<lparr>cnt := [CKW DecExpKW_REF]\<rparr>) = Inr s2" and
    r2: "drive DecAut_eval k1 s2 = Some (Inr s')" by auto
  from st p(1) have s2: "cnt s2 = []" "val s2 = VNum (newLoc (sto s1)) # val s" "env s2 = env s1"
      "heap_appends s1 s2"
    by (auto simp: all_defs Let_def heap_appends_def split: if_splits)
  from drive_empty [OF s2(1) r2] have "s' = s2" .
  with s2 p heap_appends_trans [OF p(3) s2(4)] show ?case
    by (simp add: exp_post_def)
next
  case (Cns e)
  from drive_first [OF _ Cns.prems] show ?case by (auto simp: all_defs)
qed

lemma steps_add: "steps ev (a + b) s = bindE (steps ev a s) (steps ev b)"
  by (induction a arbitrary: s) (auto simp: bindE_def split: sum.splits)

lemma steps_trans:
  "steps ev a s = Inr s1 \<Longrightarrow> steps ev b s1 = Inr s2 \<Longrightarrow> steps ev (a + b) s = Inr s2"
  by (simp add: steps_add bindE_def)

lemma steps_one: "ev s = Inr s1 \<Longrightarrow> steps ev (Suc 0) s = Inr s1"
  by (simp add: bindE_def)

lemma drive_steps_ctx:
  assumes "frame_ok ev"
  shows "drive ev n s = Some (Inr s1) \<Longrightarrow> \<exists>k. steps ev k (app_cnt D s) = Inr (s1\<lparr>cnt := D\<rparr>)"
proof (induction n arbitrary: s)
  case 0
  then have "cnt s = []" "s1 = s" by (auto simp: emptyCnt_def split: if_splits)
  then have "steps ev 0 (app_cnt D s) = Inr (s1\<lparr>cnt := D\<rparr>)" by (simp add: app_cnt_def)
  then show ?case by blast
next
  case (Suc n)
  show ?case
  proof (cases "cnt s = []")
    case True
    with Suc.prems have "s1 = s" by (simp add: emptyCnt_def)
    with True have "steps ev 0 (app_cnt D s) = Inr (s1\<lparr>cnt := D\<rparr>)" by (simp add: app_cnt_def)
    then show ?thesis by blast
  next
    case False
    then have f: "ev (app_cnt D s) = lift_cnt D (ev s)"
      using assms by (simp add: frame_ok_def)
    from drive_first [OF False Suc.prems] obtain s2 where
      s2: "ev s = Inr s2" and d: "drive ev n s2 = Some (Inr s1)" by auto
    from Suc.IH [OF d] obtain k where k: "steps ev k (app_cnt D s2) = Inr (s1\<lparr>cnt := D\<rparr>)"
      by blast
    from f s2 k have "steps ev (Suc k) (app_cnt D s) = Inr (s1\<lparr>cnt := D\<rparr>)"
      by (simp add: lift_cnt_def bindE_def)
    then show ?thesis by blast
  qed
qed

lemma drive_steps_cons:
  assumes "frame_ok ev" and "drive ev n (s\<lparr>cnt := [c]\<rparr>) = Some (Inr s1)"
  shows "\<exists>k. steps ev k (s\<lparr>cnt := c # D\<rparr>) = Inr (s1\<lparr>cnt := D\<rparr>)"
  using drive_steps_ctx [OF assms(1) assms(2), of D] by (simp add: app_cnt_def)

lemma dec_run:
  "drive DecAut_eval n (s\<lparr>cnt := [CDec d]\<rparr>) = Some (Inr s') \<Longrightarrow> dec_post s s'"
proof (induction d arbitrary: n s s')
  case (Bind i e)
  let ?t = "s\<lparr>val := VExp (Id_e i) # val s\<rparr>"
  have step: "DecAut_eval (s\<lparr>cnt := [CDec (Bind i e)]\<rparr>) = Inr (?t\<lparr>cnt := CExp e # [CKW DecKW_BIND]\<rparr>)"
    by (simp add: all_defs)
  from drive_first [OF _ Bind] step obtain k0 where
    r0: "drive DecAut_eval k0 (?t\<lparr>cnt := CExp e # [CKW DecKW_BIND]\<rparr>) = Some (Inr s')" by auto
  from drive_cons_split [OF frame_ok_DecAut r0] obtain n1 m1 s1 where
    a: "drive DecAut_eval n1 (?t\<lparr>cnt := [CExp e]\<rparr>) = Some (Inr s1)" and
    r1: "drive DecAut_eval m1 (s1\<lparr>cnt := [CKW DecKW_BIND]\<rparr>) = Some (Inr s')" by blast
  from exp_run [OF a] obtain v where
    p: "val s1 = VNum v # VExp (Id_e i) # val s" "env s1 = env s" "heap_appends s s1"
    unfolding exp_post_def by auto
  have "DecAut_eval (s1\<lparr>cnt := [CKW DecKW_BIND]\<rparr>)
      = Inr (s1\<lparr>cnt := [], val := VDict [(i, v)] # val s\<rparr>)"
    using p(1) by (simp add: all_defs)
  from drive_single [OF r1 _ this] have e: "s' = s1\<lparr>cnt := [], val := VDict [(i, v)] # val s\<rparr>"
    by simp
  show ?case unfolding dec_post_def e using p by simp
next
  case (DSeq d1 d2)
  have step: "DecAut_eval (s\<lparr>cnt := [CDec (DSeq d1 d2)]\<rparr>)
      = Inr (s\<lparr>cnt := CDec d1 # [CDec d2, CKW DecKW_DSEQ]\<rparr>)"
    by (simp add: all_defs)
  from drive_first [OF _ DSeq.prems] step obtain k0 where
    r0: "drive DecAut_eval k0 (s\<lparr>cnt := CDec d1 # [CDec d2, CKW DecKW_DSEQ]\<rparr>) = Some (Inr s')"
    by auto
  from drive_cons_split [OF frame_ok_DecAut r0] obtain n1 m1 s1 where
    a: "drive DecAut_eval n1 (s\<lparr>cnt := [CDec d1]\<rparr>) = Some (Inr s1)" and
    r1: "drive DecAut_eval m1 (s1\<lparr>cnt := CDec d2 # [CKW DecKW_DSEQ]\<rparr>) = Some (Inr s')" by blast
  from drive_cons_split [OF frame_ok_DecAut r1] obtain n2 m2 s2 where
    b: "drive DecAut_eval n2 (s1\<lparr>cnt := [CDec d2]\<rparr>) = Some (Inr s2)" and
    r2: "drive DecAut_eval m2 (s2\<lparr>cnt := [CKW DecKW_DSEQ]\<rparr>) = Some (Inr s')" by blast
  from DSeq.IH(1) [OF a] obtain m1' where
    p1: "val s1 = VDict m1' # val s" "env s1 = env s" "heap_appends s s1"
    unfolding dec_post_def by blast
  from DSeq.IH(2) [OF b] obtain m2' where
    p2: "val s2 = VDict m2' # val s1" "env s2 = env s1" "heap_appends s1 s2"
    unfolding dec_post_def by blast
  have "DecAut_eval (s2\<lparr>cnt := [CKW DecKW_DSEQ]\<rparr>)
      = Inr (s2\<lparr>cnt := [], val := VDict (dict_update m1' m2') # val s\<rparr>)"
    using p1(1) p2(1) by (simp add: all_defs)
  from drive_single [OF r2 _ this]
  have e: "s' = s2\<lparr>cnt := [], val := VDict (dict_update m1' m2') # val s\<rparr>" by simp
  show ?case unfolding dec_post_def e
    using p1 p2 heap_appends_trans [OF p1(3) p2(3)] by simp
qed

end
